theory Spec2Isabelle
  imports Main "HOL-Library.AList"
begin

section \<open>Values exchanged with the platform\<close>

text \<open>
  The payload of a message is declared \<^verbatim>\<open>data: any\<close> and task records are plain
  JavaScript objects, so both are modelled as JSON values extended with \<^verbatim>\<open>undefined\<close>.
  An object is an association list in insertion order. Numbers are restricted to integers.
\<close>

datatype json =
    JUndefined
  | JNull
  | JBool bool
  | JNum int
  | JStr string
  | JArr "json list"
  | JObj "(string \<times> json) list"

type_synonym obj = "(string \<times> json) list"

datatype js_error = TypeError | SyntaxError

text \<open>
  Property access \<^verbatim>\<open>x.p\<close>: reading a property of \<^verbatim>\<open>undefined\<close> or \<^verbatim>\<open>null\<close> throws a
  TypeError; a missing property reads as \<^verbatim>\<open>undefined\<close>. The properties the service reads
  (status, progress, message, result, error) are not defined on any prototype, so they read
  as \<^verbatim>\<open>undefined\<close> on primitives and arrays.
\<close>

fun get_prop :: "json \<Rightarrow> string \<Rightarrow> js_error + json" where
  "get_prop JUndefined p = Inl TypeError"
| "get_prop JNull p = Inl TypeError"
| "get_prop (JObj kvs) p = Inr (case map_of kvs p of None \<Rightarrow> JUndefined | Some v \<Rightarrow> v)"
| "get_prop (JBool b) p = Inr JUndefined"
| "get_prop (JNum n) p = Inr JUndefined"
| "get_prop (JStr x) p = Inr JUndefined"
| "get_prop (JArr xs) p = Inr JUndefined"

fun truthy :: "json \<Rightarrow> bool" where
  "truthy JUndefined = False"
| "truthy JNull = False"
| "truthy (JBool b) = b"
| "truthy (JNum n) = (n \<noteq> 0)"
| "truthy (JStr x) = (x \<noteq> [])"
| "truthy (JArr xs) = True"
| "truthy (JObj kvs) = True"

text \<open>The operator \<^verbatim>\<open>a || b\<close>.\<close>

definition or_else :: "json \<Rightarrow> json \<Rightarrow> json" where
  "or_else a b = (if truthy a then a else b)"

text \<open>The object spread \<^verbatim>\<open>{ ...a, ...b }\<close>: the properties of \<^verbatim>\<open>b\<close> override those of \<^verbatim>\<open>a\<close>.\<close>

definition spread :: "obj \<Rightarrow> obj \<Rightarrow> obj" where
  "spread a b = fold (\<lambda>kv acc. AList.update (fst kv) (snd kv) acc) b a"

text \<open>\<^verbatim>\<open>JSON.stringify\<close> leaves out the properties of an object whose value is \<^verbatim>\<open>undefined\<close>.\<close>

definition stringify_obj :: "obj \<Rightarrow> obj" where
  "stringify_obj kvs = filter (\<lambda>kv. snd kv \<noteq> JUndefined) kvs"

text \<open>\<^verbatim>\<open>Array.prototype.findIndex\<close>, with \<open>None\<close> for the result \<^verbatim>\<open>-1\<close>.\<close>

fun findIndex :: "('a \<Rightarrow> bool) \<Rightarrow> 'a list \<Rightarrow> nat option" where
  "findIndex P [] = None"
| "findIndex P (x # xs) = (if P x then Some 0 else map_option Suc (findIndex P xs))"

text \<open>The test \<^verbatim>\<open>t.id === taskId\<close> on a task record.\<close>

definition has_id :: "string \<Rightarrow> obj \<Rightarrow> bool" where
  "has_id taskId t = (map_of t ''id'' = Some (JStr taskId))"

section \<open>The state of the service and of the browser around it\<close>

datatype readyState = CONNECTING | OPEN | CLOSING | CLOSED

text \<open>
  A \<^verbatim>\<open>WebSocket\<close> object made by \<^verbatim>\<open>connectToTask\<close>: the task identifier its four handlers
  close over, its ready state, and the code given to \<^verbatim>\<open>close\<close> if it was called.
\<close>

record WebSocket =
  ws_task :: string
  readyState :: readyState
  closeCode :: "nat option"

record WebSocketMessage =
  msg_type :: string
  msg_task_id :: string
  msg_data :: json
  msg_timestamp :: string

text \<open>
  The text of a frame is represented by what \<^verbatim>\<open>JSON.parse\<close> makes of it: it throws a
  SyntaxError (\<open>Garbage\<close>) or yields a message of the declared shape, whose payload is any
  value.
\<close>

datatype frame = Garbage | Json WebSocketMessage

text \<open>
  An observer is code of the caller. It is called and returns (\<open>Listener\<close>) or is called and
  throws (\<open>Faulty\<close>); it does not call back into the service.
\<close>

datatype callback = Listener nat | Faulty nat

datatype toast = ToastSuccess json | ToastError json | ToastApiError

datatype console_entry =
    LogConnected string
  | ErrParseMessage
  | LogClosed string nat
  | ErrSocket string
  | ErrCreate string
  | WarnUnknownType string
  | WarnMaxAttempts string
  | LogReconnecting string nat
  | LogPollingStart string
  | ErrApi
  | ErrPolling string
  | LogPollingStopped string
  | ErrTaskUpdateCallback
  | ErrLogCallback
  | ErrParseHistory

text \<open>The item \<^verbatim>\<open>taskHistory\<close> of local storage: absent (or empty), not JSON, or a list of task records.\<close>

datatype storage_item = NoItem | Unparsable | Stored "obj list"

text \<open>
  The three maps of \<^verbatim>\<open>WebSocketService\<close> are association lists in insertion order, as a
  JavaScript \<^verbatim>\<open>Map\<close> iterates: \<open>map_of\<close> is \<^verbatim>\<open>get\<close>, \<open>AList.update\<close> is \<^verbatim>\<open>set\<close>,
  \<open>AList.delete\<close> is \<^verbatim>\<open>delete\<close>. A socket is named by its index in \<open>sockets\<close>, a timer by
  a number. \<open>pollingIntervals\<close> holds \<^verbatim>\<open>NodeJS.Timeout\<close> objects, which are always truthy.
  The fields from \<open>sockets\<close> on belong to the browser: the sockets constructed, the pending
  \<^verbatim>\<open>setTimeout\<close> callbacks (task, delay in milliseconds, attempt number logged), the running
  \<^verbatim>\<open>setInterval\<close> timers, the requests of \<^verbatim>\<open>ApiService.getTaskStatus\<close> that an interval
  callback is awaiting (by task), local storage, the toasts and the console. \<open>taskUpdatesSeen\<close>,
  \<open>logsSeen\<close> and \<open>persistCalls\<close> record the calls made to the observers and to
  \<^verbatim>\<open>ApiService.updateTaskInHistory\<close>, in order.
\<close>

record service =
  connections :: "(string \<times> nat) list"
  reconnectAttempts :: "(string \<times> nat) list"
  pollingIntervals :: "(string \<times> nat) list"
  taskUpdateCallbacks :: "callback list"
  logCallbacks :: "callback list"
  sockets :: "WebSocket list"
  timeouts :: "(string \<times> nat \<times> nat) list"
  intervals :: "(nat \<times> string) list"
  fetches :: "string list"
  nextTimer :: nat
  localStorage :: storage_item
  toasts :: "toast list"
  console :: "console_entry list"
  taskUpdatesSeen :: "(callback \<times> string \<times> obj) list"
  logsSeen :: "(callback \<times> string \<times> json) list"
  persistCalls :: "(string \<times> obj) list"

definition maxReconnectAttempts :: nat where
  "maxReconnectAttempts = 5"

definition init :: service where
  "init = \<lparr> connections = [], reconnectAttempts = [], pollingIntervals = [],
     taskUpdateCallbacks = [], logCallbacks = [], sockets = [], timeouts = [],
     intervals = [], fetches = [], nextTimer = 1, localStorage = NoItem, toasts = [], console = [],
     taskUpdatesSeen = [], logsSeen = [], persistCalls = [] \<rparr>"

section \<open>ApiService: the history kept in local storage\<close>

definition getLocalTaskHistory :: "service \<Rightarrow> obj list \<times> service" where
  "getLocalTaskHistory s =
     (case localStorage s of
        NoItem \<Rightarrow> ([], s)
      | Unparsable \<Rightarrow> ([], s\<lparr>console := console s @ [ErrParseHistory]\<rparr>)
      | Stored history \<Rightarrow> (history, s))"

definition updateTaskInHistory :: "string \<Rightarrow> obj \<Rightarrow> service \<Rightarrow> service" where
  "updateTaskInHistory taskId updates s =
     (case getLocalTaskHistory (s\<lparr>persistCalls := persistCalls s @ [(taskId, updates)]\<rparr>) of
        (history, s1) \<Rightarrow>
          (case findIndex (has_id taskId) history of
             None \<Rightarrow> s1
           | Some taskIndex \<Rightarrow>
               s1\<lparr>localStorage := Stored
                     (history[taskIndex := stringify_obj (spread (history ! taskIndex) updates)])\<rparr>))"

section \<open>WebSocketService\<close>

subsection \<open>Observers\<close>

definition onTaskUpdate :: "callback \<Rightarrow> service \<Rightarrow> service" where
  "onTaskUpdate cb s = s\<lparr>taskUpdateCallbacks := taskUpdateCallbacks s @ [cb]\<rparr>"

text \<open>The function returned by \<^verbatim>\<open>onTaskUpdate\<close>: it removes the first occurrence, if any.\<close>

definition offTaskUpdate :: "callback \<Rightarrow> service \<Rightarrow> service" where
  "offTaskUpdate cb s = s\<lparr>taskUpdateCallbacks := remove1 cb (taskUpdateCallbacks s)\<rparr>"

definition onLog :: "callback \<Rightarrow> service \<Rightarrow> service" where
  "onLog cb s = s\<lparr>logCallbacks := logCallbacks s @ [cb]\<rparr>"

definition offLog :: "callback \<Rightarrow> service \<Rightarrow> service" where
  "offLog cb s = s\<lparr>logCallbacks := remove1 cb (logCallbacks s)\<rparr>"

text \<open>One round of the \<^verbatim>\<open>forEach\<close> in \<^verbatim>\<open>notifyTaskUpdate\<close>: the call, and the \<^verbatim>\<open>catch\<close>.\<close>

definition callTaskUpdate :: "string \<Rightarrow> obj \<Rightarrow> callback \<Rightarrow> service \<Rightarrow> service" where
  "callTaskUpdate taskId updates cb s =
     (case cb of
        Listener n \<Rightarrow> s\<lparr>taskUpdatesSeen := taskUpdatesSeen s @ [(cb, taskId, updates)]\<rparr>
      | Faulty n \<Rightarrow> s\<lparr>taskUpdatesSeen := taskUpdatesSeen s @ [(cb, taskId, updates)],
                       console := console s @ [ErrTaskUpdateCallback]\<rparr>)"

definition notifyTaskUpdate :: "string \<Rightarrow> obj \<Rightarrow> service \<Rightarrow> service" where
  "notifyTaskUpdate taskId updates s =
     updateTaskInHistory taskId updates
       (fold (callTaskUpdate taskId updates) (taskUpdateCallbacks s) s)"

definition callLog :: "string \<Rightarrow> json \<Rightarrow> callback \<Rightarrow> service \<Rightarrow> service" where
  "callLog taskId entry cb s =
     (case cb of
        Listener n \<Rightarrow> s\<lparr>logsSeen := logsSeen s @ [(cb, taskId, entry)]\<rparr>
      | Faulty n \<Rightarrow> s\<lparr>logsSeen := logsSeen s @ [(cb, taskId, entry)],
                       console := console s @ [ErrLogCallback]\<rparr>)"

definition notifyLog :: "string \<Rightarrow> json \<Rightarrow> service \<Rightarrow> service" where
  "notifyLog taskId entry s = fold (callLog taskId entry) (logCallbacks s) s"

subsection \<open>Polling\<close>

definition stopPolling :: "string \<Rightarrow> service \<Rightarrow> service" where
  "stopPolling taskId s =
     (case map_of (pollingIntervals s) taskId of
        None \<Rightarrow> s
      | Some interval \<Rightarrow>
          s\<lparr>intervals := filter (\<lambda>p. fst p \<noteq> interval) (intervals s),
            pollingIntervals := AList.delete taskId (pollingIntervals s),
            console := console s @ [LogPollingStopped taskId]\<rparr>)"

definition fallbackToPolling :: "string \<Rightarrow> service \<Rightarrow> service" where
  "fallbackToPolling taskId s =
     (if map_of (pollingIntervals s) taskId \<noteq> None then s
      else s\<lparr>console := console s @ [LogPollingStart taskId],
             intervals := intervals s @ [(nextTimer s, taskId)],
             nextTimer := Suc (nextTimer s),
             pollingIntervals := AList.update taskId (nextTimer s) (pollingIntervals s)\<rparr>)"

text \<open>
  The interval callback is asynchronous: it issues \<^verbatim>\<open>ApiService.getTaskStatus\<close> and awaits
  it. \<open>pollTick\<close> is what the callback does once the request has settled, run with its
  outcome: \<open>None\<close> when the request failed (the response interceptor of \<^verbatim>\<open>api.ts\<close> then
  logs the error and shows a toast before the callback catches it), the status object
  otherwise. It runs whatever has happened to the timer in between: the callback does not
  look at \<^verbatim>\<open>pollingIntervals\<close> again.
\<close>

definition pollTick :: "string \<Rightarrow> obj option \<Rightarrow> service \<Rightarrow> service" where
  "pollTick taskId fetched s =
     (case fetched of
        None \<Rightarrow> s\<lparr>console := console s @ [ErrApi, ErrPolling taskId],
                   toasts := toasts s @ [ToastApiError]\<rparr>
      | Some status \<Rightarrow>
          (let s1 = notifyTaskUpdate taskId status s in
           if map_of status ''status'' = Some (JStr ''completed'')
              \<or> map_of status ''status'' = Some (JStr ''failed'')
           then stopPolling taskId s1 else s1))"

subsection \<open>Connections\<close>

text \<open>\<^verbatim>\<open>ws.close(code, reason)\<close>: a socket that is connecting or open starts closing.\<close>

definition ws_close :: "nat \<Rightarrow> nat \<Rightarrow> service \<Rightarrow> service" where
  "ws_close ws code s =
     (if ws < length (sockets s) \<and> readyState (sockets s ! ws) \<in> {CONNECTING, OPEN}
      then s\<lparr>sockets := (sockets s)[ws := (sockets s ! ws)\<lparr>readyState := CLOSING, closeCode := Some code\<rparr>]\<rparr>
      else s)"

definition disconnect :: "string \<Rightarrow> service \<Rightarrow> service" where
  "disconnect taskId s =
     (let s1 = (case map_of (connections s) taskId of
                  None \<Rightarrow> s
                | Some ws \<Rightarrow> (ws_close ws 1000 s)\<lparr>connections := AList.delete taskId (connections s)\<rparr>);
          s2 = stopPolling taskId s1
      in s2\<lparr>reconnectAttempts := AList.delete taskId (reconnectAttempts s2)\<rparr>)"

text \<open>
  The loop over \<^verbatim>\<open>connections.keys()\<close>: each round deletes only the key it is at, so the
  iterator visits every key that was there at the start.
\<close>

definition disconnectAll :: "service \<Rightarrow> service" where
  "disconnectAll s = fold disconnect (map fst (connections s)) s"

text \<open>The delay of \<^verbatim>\<open>handleReconnection\<close>, in milliseconds.\<close>

definition reconnectDelay :: "nat \<Rightarrow> nat" where
  "reconnectDelay attempts = min (1000 * 2 ^ attempts) 30000"

definition attemptsOf :: "service \<Rightarrow> string \<Rightarrow> nat" where
  "attemptsOf s taskId = (case map_of (reconnectAttempts s) taskId of None \<Rightarrow> 0 | Some n \<Rightarrow> n)"

definition handleReconnection :: "string \<Rightarrow> service \<Rightarrow> service" where
  "handleReconnection taskId s =
     (let attempts = attemptsOf s taskId in
      if attempts \<ge> maxReconnectAttempts
      then fallbackToPolling taskId (s\<lparr>console := console s @ [WarnMaxAttempts taskId]\<rparr>)
      else s\<lparr>reconnectAttempts := AList.update taskId (attempts + 1) (reconnectAttempts s),
             timeouts := timeouts s @ [(taskId, reconnectDelay attempts, attempts + 1)]\<rparr>)"

text \<open>
  \<^verbatim>\<open>connectToTask\<close>: \<open>created\<close> tells whether \<^verbatim>\<open>new WebSocket(wsUrl)\<close> returns a socket
  (it throws otherwise). The four handlers of the new socket follow.
\<close>

definition connectToTask :: "bool \<Rightarrow> string \<Rightarrow> service \<Rightarrow> service" where
  "connectToTask created taskId s =
     (if map_of (connections s) taskId \<noteq> None then s
      else if created
      then s\<lparr>sockets := sockets s @ [\<lparr>ws_task = taskId, readyState = CONNECTING, closeCode = None\<rparr>]\<rparr>
      else fallbackToPolling taskId (s\<lparr>console := console s @ [ErrCreate taskId]\<rparr>))"

definition ws_onopen :: "string \<Rightarrow> nat \<Rightarrow> service \<Rightarrow> service" where
  "ws_onopen taskId ws s =
     stopPolling taskId
       (s\<lparr>console := console s @ [LogConnected taskId],
          connections := AList.update taskId ws (connections s),
          reconnectAttempts := AList.delete taskId (reconnectAttempts s)\<rparr>)"

definition ws_onclose :: "string \<Rightarrow> nat \<Rightarrow> service \<Rightarrow> service" where
  "ws_onclose taskId code s =
     (let s1 = s\<lparr>console := console s @ [LogClosed taskId code],
                 connections := AList.delete taskId (connections s)\<rparr>
      in if code \<noteq> 1000 then handleReconnection taskId s1 else s1)"

definition ws_onerror :: "string \<Rightarrow> service \<Rightarrow> service" where
  "ws_onerror taskId s = handleReconnection taskId (s\<lparr>console := console s @ [ErrSocket taskId]\<rparr>)"

subsection \<open>Inbound messages\<close>

text \<open>
  \<^verbatim>\<open>handleWebSocketMessage\<close>, with \<open>now\<close> for \<^verbatim>\<open>new Date().toISOString()\<close>. Reading a
  property of a payload that is \<^verbatim>\<open>null\<close> or \<^verbatim>\<open>undefined\<close> throws; the result is then
  the error with the state reached so far.
\<close>

definition handleWebSocketMessage ::
    "string \<Rightarrow> WebSocketMessage \<Rightarrow> service \<Rightarrow> (js_error \<times> service) + service" where
  "handleWebSocketMessage now message s =
     (let ty = msg_type message; task_id = msg_task_id message; data = msg_data message in
      if ty = ''status'' then
        (case get_prop data ''status'' of
           Inl e \<Rightarrow> Inl (e, s)
         | Inr st \<Rightarrow>
            (case get_prop data ''progress'' of
               Inl e \<Rightarrow> Inl (e, s)
             | Inr pr \<Rightarrow> Inr (notifyTaskUpdate task_id [(''status'', st), (''progress'', pr)] s)))
      else if ty = ''progress'' then
        (case get_prop data ''progress'' of
           Inl e \<Rightarrow> Inl (e, s)
         | Inr pr \<Rightarrow> Inr (notifyTaskUpdate task_id [(''progress'', pr)] s))
      else if ty = ''log'' then
        (case get_prop data ''message'' of
           Inl e \<Rightarrow> Inl (e, s)
         | Inr m \<Rightarrow> Inr (notifyLog task_id m s))
      else if ty = ''completed'' then
        (case get_prop data ''result'' of
           Inl e \<Rightarrow> Inl (e, s)
         | Inr r \<Rightarrow>
            (let s1 = notifyTaskUpdate task_id
                        [(''status'', JStr ''completed''), (''completed_at'', JStr now),
                         (''result'', r), (''progress'', JNum 100)] s
             in (case get_prop data ''message'' of
                   Inl e \<Rightarrow> Inl (e, s1)
                 | Inr m \<Rightarrow>
                     Inr (disconnect task_id
                       (s1\<lparr>toasts := toasts s1 @ [ToastSuccess (or_else m (JStr ''Success''))]\<rparr>)))))
      else if ty = ''failed'' then
        (case get_prop data ''error'' of
           Inl e \<Rightarrow> Inl (e, s)
         | Inr er \<Rightarrow>
            (let s1 = notifyTaskUpdate task_id
                        [(''status'', JStr ''failed''), (''completed_at'', JStr now),
                         (''error'', er)] s
             in Inr (disconnect task_id
                  (s1\<lparr>toasts := toasts s1 @ [ToastError (or_else er (JStr ''Unknown error''))]\<rparr>))))
      else Inr (s\<lparr>console := console s @ [WarnUnknownType ty]\<rparr>))"

text \<open>
  The \<^verbatim>\<open>onmessage\<close> handler: whatever is thrown by \<^verbatim>\<open>JSON.parse\<close> or by the dispatch is
  caught and logged.
\<close>

definition ws_onmessage :: "string \<Rightarrow> frame \<Rightarrow> service \<Rightarrow> service" where
  "ws_onmessage now fr s =
     (case fr of
        Garbage \<Rightarrow> s\<lparr>console := console s @ [ErrParseMessage]\<rparr>
      | Json message \<Rightarrow>
          (case handleWebSocketMessage now message s of
             Inl (e, s') \<Rightarrow> s'\<lparr>console := console s' @ [ErrParseMessage]\<rparr>
           | Inr s' \<Rightarrow> s'))"

subsection \<open>Queries\<close>

definition isConnected :: "string \<Rightarrow> service \<Rightarrow> bool" where
  "isConnected taskId s =
     (case map_of (connections s) taskId of
        None \<Rightarrow> False
      | Some ws \<Rightarrow> ws < length (sockets s) \<and> readyState (sockets s ! ws) = OPEN)"

definition getActiveConnections :: "service \<Rightarrow> string list" where
  "getActiveConnections s = map fst (connections s)"

section \<open>Runs of the service\<close>

text \<open>
  What can happen to the service: a call of its interface, or the browser running one of
  the callbacks the service gave it. The browser opens a socket that is connecting and
  delivers a frame on a socket that is open. A socket that is not closed yet closes in one
  of two ways: cleanly (\<open>WsClose\<close>: the close event alone, with its code), or because the
  connection failed (\<open>WsFail\<close>: the error event and then the close event, in the same
  task of the browser, nothing running in between). A pending timeout runs once. An interval
  that is not cleared runs its callback, which issues the status request (\<open>IntervalFires\<close>);
  the request settles later, in a step of its own (\<open>FetchReturns\<close>, with the outcome), and
  other events can come in between.
\<close>

datatype event =
    ConnectToTask string bool
  | Disconnect string
  | DisconnectAll
  | OnTaskUpdate callback
  | OffTaskUpdate callback
  | OnLog callback
  | OffLog callback
  | WsOpen nat
  | WsMessage nat string frame
  | WsClose nat nat
  | WsFail nat nat
  | TimeoutFires nat bool
  | IntervalFires nat
  | FetchReturns nat "obj option"

definition set_readyState :: "nat \<Rightarrow> readyState \<Rightarrow> service \<Rightarrow> service" where
  "set_readyState ws r s = s\<lparr>sockets := (sockets s)[ws := (sockets s ! ws)\<lparr>readyState := r\<rparr>]\<rparr>"

definition remove_nth :: "nat \<Rightarrow> 'a list \<Rightarrow> 'a list" where
  "remove_nth i xs = take i xs @ drop (Suc i) xs"

fun step :: "event \<Rightarrow> service \<Rightarrow> service" where
  "step (ConnectToTask taskId created) s = connectToTask created taskId s"
| "step (Disconnect taskId) s = disconnect taskId s"
| "step DisconnectAll s = disconnectAll s"
| "step (OnTaskUpdate cb) s = onTaskUpdate cb s"
| "step (OffTaskUpdate cb) s = offTaskUpdate cb s"
| "step (OnLog cb) s = onLog cb s"
| "step (OffLog cb) s = offLog cb s"
| "step (WsOpen ws) s =
     (if ws < length (sockets s) \<and> readyState (sockets s ! ws) = CONNECTING
      then ws_onopen (ws_task (sockets s ! ws)) ws (set_readyState ws OPEN s) else s)"
| "step (WsMessage ws now fr) s =
     (if ws < length (sockets s) \<and> readyState (sockets s ! ws) = OPEN
      then ws_onmessage now fr s else s)"
| "step (WsClose ws code) s =
     (if ws < length (sockets s) \<and> readyState (sockets s ! ws) \<noteq> CLOSED
      then ws_onclose (ws_task (sockets s ! ws)) code (set_readyState ws CLOSED s) else s)"
| "step (WsFail ws code) s =
     (if ws < length (sockets s) \<and> readyState (sockets s ! ws) \<noteq> CLOSED
      then ws_onclose (ws_task (sockets s ! ws)) code
             (ws_onerror (ws_task (sockets s ! ws)) (set_readyState ws CLOSED s))
      else s)"
| "step (TimeoutFires i created) s =
     (if i < length (timeouts s)
      then (case timeouts s ! i of (taskId, delay, attempt) \<Rightarrow>
              connectToTask created taskId
                (s\<lparr>timeouts := remove_nth i (timeouts s),
                   console := console s @ [LogReconnecting taskId attempt]\<rparr>))
      else s)"
| "step (IntervalFires interval) s =
     (case map_of (intervals s) interval of
        None \<Rightarrow> s
      | Some taskId \<Rightarrow> s\<lparr>fetches := fetches s @ [taskId]\<rparr>)"
| "step (FetchReturns i fetched) s =
     (if i < length (fetches s)
      then pollTick (fetches s ! i) fetched (s\<lparr>fetches := remove_nth i (fetches s)\<rparr>)
      else s)"

definition run :: "event list \<Rightarrow> service \<Rightarrow> service" where
  "run evs s = fold step evs s"

section \<open>Agreement up to the console\<close>

text \<open>Two states agree when they differ at most in the console.\<close>

definition agree :: "service \<Rightarrow> service \<Rightarrow> bool" where
  "agree x y \<longleftrightarrow>
     connections x = connections y \<and> reconnectAttempts x = reconnectAttempts y
   \<and> pollingIntervals x = pollingIntervals y \<and> taskUpdateCallbacks x = taskUpdateCallbacks y
   \<and> logCallbacks x = logCallbacks y \<and> sockets x = sockets y \<and> timeouts x = timeouts y
   \<and> intervals x = intervals y \<and> fetches x = fetches y \<and> nextTimer x = nextTimer y
   \<and> localStorage x = localStorage y
   \<and> toasts x = toasts y \<and> taskUpdatesSeen x = taskUpdatesSeen y \<and> logsSeen x = logsSeen y
   \<and> persistCalls x = persistCalls y"

section \<open>States used as examples\<close>

definition two_tasks :: service where
  "two_tasks = init\<lparr>localStorage := Stored
     [[(''id'', JStr ''a''), (''progress'', JNum 10)], [(''id'', JStr ''b''), (''progress'', JNum 20)]]\<rparr>"

definition connected_a :: service where
  "connected_a = run [ConnectToTask ''a'' True, WsOpen 0] init"

definition failing_a :: "event list" where
  "failing_a = [ConnectToTask ''a'' True, WsFail 0 1006,
                TimeoutFires 0 True, WsFail 1 1006,
                TimeoutFires 0 True, WsFail 2 1006]"

definition unregistered_open_a :: "event list" where
  "unregistered_open_a =
     [OnTaskUpdate (Listener 1), ConnectToTask ''a'' True, ConnectToTask ''a'' True,
      WsOpen 0, WsOpen 1, WsFail 0 1006,
      TimeoutFires 0 True, WsFail 2 1006,
      TimeoutFires 0 True, WsFail 3 1006]"

definition handover_a :: "event list" where
  "handover_a = OnTaskUpdate (Listener 1) # failing_a @ [IntervalFires 1, TimeoutFires 0 True, WsOpen 3]"

definition watching_a :: service where
  "watching_a = run [OnTaskUpdate (Listener 1), OnLog (Listener 2), ConnectToTask ''a'' True, WsOpen 0]
     (init\<lparr>localStorage := Stored [[(''id'', JStr ''a''), (''status'', JStr ''running'')]]\<rparr>)"

definition progress_msg :: "string \<Rightarrow> json \<Rightarrow> string \<Rightarrow> WebSocketMessage" where
  "progress_msg t d ts = \<lparr>msg_type = ''progress'', msg_task_id = t, msg_data = d, msg_timestamp = ts\<rparr>"

definition completed_msg :: "string \<Rightarrow> json \<Rightarrow> string \<Rightarrow> WebSocketMessage" where
  "completed_msg t d ts = \<lparr>msg_type = ''completed'', msg_task_id = t, msg_data = d, msg_timestamp = ts\<rparr>"

definition failed_msg :: "string \<Rightarrow> json \<Rightarrow> string \<Rightarrow> WebSocketMessage" where
  "failed_msg t d ts = \<lparr>msg_type = ''failed'', msg_task_id = t, msg_data = d, msg_timestamp = ts\<rparr>"

section \<open>The backoff delay\<close>

lemma reconnectDelay_units: "reconnectDelay n = 1000 * min (2 ^ n) 30"
  by (simp add: reconnectDelay_def min_def)

lemma reconnectDelay_mono: "a \<le> b \<Longrightarrow> reconnectDelay a \<le> reconnectDelay b"
proof -
  assume "a \<le> b"
  then have "(2::nat) ^ a \<le> 2 ^ b" by (simp add: power_increasing)
  then have "min ((2::nat) ^ a) 30 \<le> min (2 ^ b) 30" by (intro min.mono) simp_all
  then show ?thesis by (simp add: reconnectDelay_units)
qed

lemma handleReconnection_below_max:
  "attemptsOf s taskId < maxReconnectAttempts \<Longrightarrow>
   handleReconnection taskId s =
     s\<lparr>reconnectAttempts := AList.update taskId (attemptsOf s taskId + 1) (reconnectAttempts s),
       timeouts := timeouts s @ [(taskId, reconnectDelay (attemptsOf s taskId), attemptsOf s taskId + 1)]\<rparr>"
  by (simp add: handleReconnection_def Let_def)

text \<open>
  Claim C2. For an attempt count \<open>n\<close> from 0 to 4 the delay is \<open>min (1000 * 2 ^ n) 30000\<close>
  milliseconds, that is \<open>min (1 * 2 ^ n) 30\<close> units of one second, and this is the delay of the
  retry that \<^verbatim>\<open>handleReconnection\<close> schedules when the counter of the task is \<open>n\<close>. The delay
  is 1 unit at 0, 8 units at 3 and 30 units at 5; it never decreases as the count grows and
  never exceeds the cap of 30 units.
\<close>

theorem backoff_delay:
  assumes "n \<le> 4" and "attemptsOf s taskId = n"
  shows "reconnectDelay n = min (1000 * 2 ^ n) 30000
       \<and> reconnectDelay n = 1000 * min (1 * 2 ^ n) 30
       \<and> timeouts (handleReconnection taskId s) = timeouts s @ [(taskId, min (1000 * 2 ^ n) 30000, n + 1)]
       \<and> reconnectDelay 0 = 1000 \<and> reconnectDelay 3 = 8000 \<and> reconnectDelay 5 = 30000
       \<and> (\<forall>a b. a \<le> b \<longrightarrow> reconnectDelay a \<le> reconnectDelay b)
       \<and> (\<forall>k. reconnectDelay k \<le> 30000)"
proof -
  have lt: "attemptsOf s taskId < maxReconnectAttempts"
    using assms by (simp add: maxReconnectAttempts_def)
  have sched: "timeouts (handleReconnection taskId s) = timeouts s @ [(taskId, min (1000 * 2 ^ n) 30000, n + 1)]"
    using assms(2) by (simp add: handleReconnection_below_max [OF lt] reconnectDelay_def)
  have vals: "reconnectDelay 0 = 1000 \<and> reconnectDelay 3 = 8000 \<and> reconnectDelay 5 = 30000"
    by (simp add: reconnectDelay_def)
  have cap: "\<forall>k. reconnectDelay k \<le> 30000"
    by (simp add: reconnectDelay_def)
  show ?thesis
    using sched vals cap reconnectDelay_mono reconnectDelay_units [of n]
    by (simp add: reconnectDelay_def)
qed

theorem backoff_delay_witness:
  "(3::nat) \<le> 4 \<and> attemptsOf (init\<lparr>reconnectAttempts := [(''a'', 3)]\<rparr>) ''a'' = 3
   \<and> reconnectDelay 3 = 8000
   \<and> timeouts (handleReconnection ''a'' (init\<lparr>reconnectAttempts := [(''a'', 3)]\<rparr>)) = [(''a'', 8000, 4)]"
proof -
  have h1: "(3::nat) \<le> 4" by simp
  have h2: "attemptsOf (init\<lparr>reconnectAttempts := [(''a'', 3)]\<rparr>) ''a'' = 3"
    by (simp add: attemptsOf_def init_def)
  show ?thesis
    using backoff_delay [OF h1 h2] h2 by (simp add: init_def)
qed

section \<open>The write-through to local storage\<close>

lemma findIndex_None: "findIndex P xs = None \<longleftrightarrow> (\<forall>x\<in>set xs. \<not> P x)"
  by (induction xs) auto

lemma findIndex_Some:
  "findIndex P xs = Some i \<Longrightarrow> i < length xs \<and> P (xs ! i) \<and> (\<forall>j<i. \<not> P (xs ! j))"
proof (induction xs arbitrary: i)
  case Nil
  then show ?case by simp
next
  case (Cons x xs)
  show ?case
  proof (cases "P x")
    case True
    with Cons.prems show ?thesis by simp
  next
    case False
    with Cons.prems obtain k where k: "findIndex P xs = Some k" "i = Suc k" by auto
    from Cons.IH [OF k(1)] False k(2) show ?thesis
      by (auto simp: nth_Cons split: nat.splits)
  qed
qed

lemma localStorage_getLocalTaskHistory [simp]:
  "localStorage (snd (getLocalTaskHistory s)) = localStorage s"
  by (simp add: getLocalTaskHistory_def split: storage_item.splits)

lemma fst_getLocalTaskHistory_persistCalls [simp]:
  "fst (getLocalTaskHistory (s\<lparr>persistCalls := c\<rparr>)) = fst (getLocalTaskHistory s)"
  by (simp add: getLocalTaskHistory_def split: storage_item.splits)

lemma localStorage_updateTaskInHistory:
  "localStorage (updateTaskInHistory taskId updates s) =
     (case findIndex (has_id taskId) (fst (getLocalTaskHistory s)) of
        None \<Rightarrow> localStorage s
      | Some i \<Rightarrow> Stored ((fst (getLocalTaskHistory s))
                   [i := stringify_obj (spread (fst (getLocalTaskHistory s) ! i) updates)]))"
  by (simp add: updateTaskInHistory_def getLocalTaskHistory_def
           split: storage_item.splits option.splits)

lemma findIndex_first:
  assumes "i < length xs" "P (xs ! i)" "\<forall>j<i. \<not> P (xs ! j)"
  shows "findIndex P xs = Some i"
proof -
  from assms(1,2) have "findIndex P xs \<noteq> None"
    by (auto simp: findIndex_None)
  then obtain k where k: "findIndex P xs = Some k" by auto
  from findIndex_Some [OF k] assms have "\<not> k < i" "\<not> i < k" by auto
  with k show ?thesis by simp
qed

text \<open>
  Claim C10. \<^verbatim>\<open>updateTaskInHistory\<close> changes only a record that is already in the stored
  history. When no stored record has the task identifier, local storage is left as it was
  (nothing is inserted). When some record has it, the first such record is replaced by its
  merge with the update and every other record, and the number of records, stay as they were.
\<close>

theorem updateTaskInHistory_frame:
  "((\<forall>t\<in>set (fst (getLocalTaskHistory s)). \<not> has_id taskId t) \<longrightarrow>
      localStorage (updateTaskInHistory taskId updates s) = localStorage s)
   \<and> (\<forall>i. i < length (fst (getLocalTaskHistory s))
          \<and> has_id taskId (fst (getLocalTaskHistory s) ! i)
          \<and> (\<forall>j<i. \<not> has_id taskId (fst (getLocalTaskHistory s) ! j)) \<longrightarrow>
        (\<exists>h'. localStorage (updateTaskInHistory taskId updates s) = Stored h'
           \<and> length h' = length (fst (getLocalTaskHistory s))
           \<and> h' ! i = stringify_obj (spread (fst (getLocalTaskHistory s) ! i) updates)
           \<and> (\<forall>j<length (fst (getLocalTaskHistory s)). j \<noteq> i \<longrightarrow>
                 h' ! j = fst (getLocalTaskHistory s) ! j)
           \<and> h' = (fst (getLocalTaskHistory s))
                    [i := stringify_obj (spread (fst (getLocalTaskHistory s) ! i) updates)]))"
proof (intro conjI impI allI)
  assume "\<forall>t\<in>set (fst (getLocalTaskHistory s)). \<not> has_id taskId t"
  then have "findIndex (has_id taskId) (fst (getLocalTaskHistory s)) = None"
    by (simp add: findIndex_None)
  then show "localStorage (updateTaskInHistory taskId updates s) = localStorage s"
    by (simp add: localStorage_updateTaskInHistory)
next
  fix i
  let ?h = "fst (getLocalTaskHistory s)"
  assume "i < length ?h \<and> has_id taskId (?h ! i) \<and> (\<forall>j<i. \<not> has_id taskId (?h ! j))"
  then have i: "findIndex (has_id taskId) ?h = Some i" and len: "i < length ?h"
    by (simp_all add: findIndex_first)
  have st: "localStorage (updateTaskInHistory taskId updates s) =
              Stored (?h[i := stringify_obj (spread (?h ! i) updates)])"
    using i by (simp add: localStorage_updateTaskInHistory)
  show "\<exists>h'. localStorage (updateTaskInHistory taskId updates s) = Stored h'
           \<and> length h' = length ?h
           \<and> h' ! i = stringify_obj (spread (?h ! i) updates)
           \<and> (\<forall>j<length ?h. j \<noteq> i \<longrightarrow> h' ! j = ?h ! j)
           \<and> h' = ?h[i := stringify_obj (spread (?h ! i) updates)]"
    using st len by simp
qed

theorem updateTaskInHistory_frame_witness:
  "\<not> has_id ''z'' (fst (getLocalTaskHistory two_tasks) ! 0)
   \<and> \<not> has_id ''z'' (fst (getLocalTaskHistory two_tasks) ! 1)
   \<and> length (fst (getLocalTaskHistory two_tasks)) = 2
   \<and> localStorage (updateTaskInHistory ''z'' [(''progress'', JNum 50)] two_tasks) = localStorage two_tasks
   \<and> has_id ''b'' (fst (getLocalTaskHistory two_tasks) ! 1)
   \<and> \<not> has_id ''b'' (fst (getLocalTaskHistory two_tasks) ! 0)
   \<and> localStorage (updateTaskInHistory ''b'' [(''progress'', JNum 50)] two_tasks) =
       Stored [[(''id'', JStr ''a''), (''progress'', JNum 10)], [(''id'', JStr ''b''), (''progress'', JNum 50)]]"
proof -
  have h: "fst (getLocalTaskHistory two_tasks) =
      [[(''id'', JStr ''a''), (''progress'', JNum 10)], [(''id'', JStr ''b''), (''progress'', JNum 20)]]"
    by (simp add: getLocalTaskHistory_def two_tasks_def init_def)
  have absent: "\<forall>t\<in>set (fst (getLocalTaskHistory two_tasks)). \<not> has_id ''z'' t"
    by (simp add: h has_id_def)
  have present: "1 < length (fst (getLocalTaskHistory two_tasks))
      \<and> has_id ''b'' (fst (getLocalTaskHistory two_tasks) ! 1)
      \<and> (\<forall>j<1. \<not> has_id ''b'' (fst (getLocalTaskHistory two_tasks) ! j))"
    by (simp add: h has_id_def)
  from updateTaskInHistory_frame [of two_tasks "''z''" "[(''progress'', JNum 50)]"] absent
  have a: "localStorage (updateTaskInHistory ''z'' [(''progress'', JNum 50)] two_tasks) = localStorage two_tasks"
    by blast
  from updateTaskInHistory_frame [of two_tasks "''b''" "[(''progress'', JNum 50)]"] present
  have "localStorage (updateTaskInHistory ''b'' [(''progress'', JNum 50)] two_tasks) =
      Stored ((fst (getLocalTaskHistory two_tasks))
        [1 := stringify_obj (spread (fst (getLocalTaskHistory two_tasks) ! 1) [(''progress'', JNum 50)])])"
    by blast
  then have b: "localStorage (updateTaskInHistory ''b'' [(''progress'', JNum 50)] two_tasks) =
       Stored [[(''id'', JStr ''a''), (''progress'', JNum 10)], [(''id'', JStr ''b''), (''progress'', JNum 50)]]"
    by (simp add: h spread_def stringify_obj_def)
  have ids: "\<not> has_id ''z'' (fst (getLocalTaskHistory two_tasks) ! 0)
      \<and> \<not> has_id ''z'' (fst (getLocalTaskHistory two_tasks) ! 1)
      \<and> length (fst (getLocalTaskHistory two_tasks)) = 2
      \<and> has_id ''b'' (fst (getLocalTaskHistory two_tasks) ! 1)
      \<and> \<not> has_id ''b'' (fst (getLocalTaskHistory two_tasks) ! 0)"
    by (simp add: h has_id_def)
  from a b ids show ?thesis by blast
qed

section \<open>Connections, reconnection and polling\<close>

lemmas svc_defs = run_def init_def connectToTask_def ws_onclose_def ws_onerror_def ws_onopen_def
  handleReconnection_def attemptsOf_def maxReconnectAttempts_def reconnectDelay_def fallbackToPolling_def
  stopPolling_def set_readyState_def remove_nth_def disconnect_def disconnectAll_def ws_close_def

lemma connected_a_eq:
  "connected_a = init\<lparr>connections := [(''a'', 0)],
      sockets := [\<lparr>ws_task = ''a'', readyState = OPEN, closeCode = None\<rparr>],
      console := [LogConnected ''a'']\<rparr>"
  by (simp add: connected_a_def svc_defs)

lemma map_of_filter_fst_neq [simp]: "map_of (filter (\<lambda>p. fst p \<noteq> h) xs) h = None"
  by (induction xs) auto

text \<open>
  Claim C1, at the input where the code departs from it: \<^verbatim>\<open>connectToTask("a")\<close> is called
  twice before the first socket has opened. \<^verbatim>\<open>connections\<close> is filled in \<^verbatim>\<open>onopen\<close> only, so
  the second call finds no entry and constructs a second socket. Both sockets then open: the
  task has two live channels. A second call that comes after the first socket has opened
  constructs nothing.
\<close>

theorem second_subscribe_opens_duplicate:
  "map (\<lambda>w. (ws_task w, readyState w))
     (sockets (run [ConnectToTask ''a'' True, ConnectToTask ''a'' True, WsOpen 0, WsOpen 1] init))
   = [(''a'', OPEN), (''a'', OPEN)]
   \<and> map (\<lambda>w. (ws_task w, readyState w))
     (sockets (run [ConnectToTask ''a'' True, WsOpen 0, ConnectToTask ''a'' True] init))
   = [(''a'', OPEN)]"
  by (simp add: svc_defs)

lemma handleReconnection_at_max:
  "maxReconnectAttempts \<le> attemptsOf s taskId \<Longrightarrow>
   handleReconnection taskId s =
     fallbackToPolling taskId (s\<lparr>console := console s @ [WarnMaxAttempts taskId]\<rparr>)"
  by (simp add: handleReconnection_def Let_def attemptsOf_def)

lemma attemptsOf_simps [simp]:
  "attemptsOf (s\<lparr>console := c\<rparr>) t = attemptsOf s t"
  "attemptsOf (s\<lparr>timeouts := ts\<rparr>) t = attemptsOf s t"
  "attemptsOf (fallbackToPolling t' s) t = attemptsOf s t"
  by (simp_all add: attemptsOf_def fallbackToPolling_def)

lemma handleReconnection_retry:
  assumes "attemptsOf s taskId < maxReconnectAttempts"
  shows "attemptsOf (handleReconnection taskId s) taskId = attemptsOf s taskId + 1"
    and "timeouts (handleReconnection taskId s) =
           timeouts s @ [(taskId, reconnectDelay (attemptsOf s taskId), attemptsOf s taskId + 1)]"
    and "pollingIntervals (handleReconnection taskId s) = pollingIntervals s"
    and "intervals (handleReconnection taskId s) = intervals s"
    and "sockets (handleReconnection taskId s) = sockets s"
  by (simp_all add: handleReconnection_below_max [OF assms] attemptsOf_def AList.update_conv')

lemma handleReconnection_give_up:
  assumes "maxReconnectAttempts \<le> attemptsOf s taskId"
  shows "map_of (pollingIntervals (handleReconnection taskId s)) taskId \<noteq> None"
    and "timeouts (handleReconnection taskId s) = timeouts s"
    and "reconnectAttempts (handleReconnection taskId s) = reconnectAttempts s"
    and "sockets (handleReconnection taskId s) = sockets s"
    and "attemptsOf (handleReconnection taskId s) taskId = attemptsOf s taskId"
  by (simp_all add: handleReconnection_at_max [OF assms] fallbackToPolling_def attemptsOf_def
        AList.update_conv')

text \<open>
  Claim C3, at the input where the code departs from it: the server cannot be reached, so
  every connection attempt for task \<open>a\<close> fails, reported as a browser reports it, by the
  error event and then the close event. Both handlers call \<^verbatim>\<open>handleReconnection\<close>, so each
  failed attempt counts twice and schedules two retries. After the second failed attempt the
  task is not polling yet; after the third the counter is 5 and the task is polling, with
  three retries still pending, and each of them opens a new socket after polling has begun.
\<close>

theorem double_report_polls_after_three_failures:
  "map readyState (sockets (run failing_a init)) = [CLOSED, CLOSED, CLOSED]
   \<and> reconnectAttempts (run failing_a init) = [(''a'', 5)]
   \<and> pollingIntervals (run failing_a init) = [(''a'', 1)]
   \<and> timeouts (run failing_a init) = [(''a'', 4000, 3), (''a'', 8000, 4), (''a'', 16000, 5)]
   \<and> map readyState (sockets (run (failing_a @ [TimeoutFires 0 True]) init))
        = [CLOSED, CLOSED, CLOSED, CONNECTING]
   \<and> map readyState
        (sockets (run (failing_a @ [TimeoutFires 0 True, TimeoutFires 0 True, TimeoutFires 0 True]) init))
        = [CLOSED, CLOSED, CLOSED, CONNECTING, CONNECTING, CONNECTING]
   \<and> pollingIntervals (run [ConnectToTask ''a'' True, WsFail 0 1006, TimeoutFires 0 True, WsFail 1 1006] init)
        = []"
  by (simp add: failing_a_def svc_defs)

text \<open>
  Claim C4. The \<^verbatim>\<open>onclose\<close> handler run with code 1000 changes neither the reconnect
  counters nor the pending retries, constructs no socket and starts no polling. When a task
  has an open connection, \<^verbatim>\<open>disconnect\<close> asks the socket to close with code 1000 and clears
  the counter of the task, and after the close event with that code the task has no counter,
  no retry has been scheduled and no socket has been constructed.
\<close>

theorem intentional_close_never_reconnects:
  "reconnectAttempts (ws_onclose taskId 1000 s) = reconnectAttempts s
   \<and> timeouts (ws_onclose taskId 1000 s) = timeouts s
   \<and> sockets (ws_onclose taskId 1000 s) = sockets s
   \<and> pollingIntervals (ws_onclose taskId 1000 s) = pollingIntervals s
   \<and> intervals (ws_onclose taskId 1000 s) = intervals s
   \<and> (map_of (connections s) taskId = Some ws \<and> ws < length (sockets s)
        \<and> readyState (sockets s ! ws) = OPEN \<and> ws_task (sockets s ! ws) = taskId \<longrightarrow>
       closeCode (sockets (disconnect taskId s) ! ws) = Some 1000
       \<and> readyState (sockets (disconnect taskId s) ! ws) = CLOSING
       \<and> timeouts (disconnect taskId s) = timeouts s
       \<and> map_of (reconnectAttempts (disconnect taskId s)) taskId = None
       \<and> map_of (reconnectAttempts (run [Disconnect taskId, WsClose ws 1000] s)) taskId = None
       \<and> timeouts (run [Disconnect taskId, WsClose ws 1000] s) = timeouts s
       \<and> length (sockets (run [Disconnect taskId, WsClose ws 1000] s)) = length (sockets s)
       \<and> map_of (connections (run [Disconnect taskId, WsClose ws 1000] s)) taskId = None)"
proof -
  have closed: "ws_onclose taskId 1000 s =
      s\<lparr>console := console s @ [LogClosed taskId 1000],
        connections := AList.delete taskId (connections s)\<rparr>" for s
    by (simp add: ws_onclose_def)
  have scen: "closeCode (sockets (disconnect taskId s) ! ws) = Some 1000
       \<and> readyState (sockets (disconnect taskId s) ! ws) = CLOSING
       \<and> timeouts (disconnect taskId s) = timeouts s
       \<and> map_of (reconnectAttempts (disconnect taskId s)) taskId = None
       \<and> map_of (reconnectAttempts (run [Disconnect taskId, WsClose ws 1000] s)) taskId = None
       \<and> timeouts (run [Disconnect taskId, WsClose ws 1000] s) = timeouts s
       \<and> length (sockets (run [Disconnect taskId, WsClose ws 1000] s)) = length (sockets s)
       \<and> map_of (connections (run [Disconnect taskId, WsClose ws 1000] s)) taskId = None"
    if h: "map_of (connections s) taskId = Some ws" "ws < length (sockets s)"
          "readyState (sockets s ! ws) = OPEN" "ws_task (sockets s ! ws) = taskId"
  proof -
    have d: "sockets (disconnect taskId s) =
               (sockets s)[ws := (sockets s ! ws)\<lparr>readyState := CLOSING, closeCode := Some 1000\<rparr>]
           \<and> timeouts (disconnect taskId s) = timeouts s
           \<and> reconnectAttempts (disconnect taskId s) = AList.delete taskId (reconnectAttempts s)
           \<and> connections (disconnect taskId s) = AList.delete taskId (connections s)"
      using h by (simp add: disconnect_def ws_close_def stopPolling_def Let_def split: option.splits)
    have r: "run [Disconnect taskId, WsClose ws 1000] s =
               ws_onclose taskId 1000 (set_readyState ws CLOSED (disconnect taskId s))"
      using h d by (simp add: run_def)
    show ?thesis
      using h d unfolding r closed
      by (simp add: set_readyState_def AList.delete_conv')
  qed
  show ?thesis
    using scen by (simp add: closed)
qed

theorem intentional_close_never_reconnects_witness:
  "map_of (connections connected_a) ''a'' = Some 0 \<and> 0 < length (sockets connected_a)
   \<and> readyState (sockets connected_a ! 0) = OPEN \<and> ws_task (sockets connected_a ! 0) = ''a''
   \<and> closeCode (sockets (disconnect ''a'' connected_a) ! 0) = Some 1000
   \<and> timeouts (run [Disconnect ''a'', WsClose 0 1000] connected_a) = []
   \<and> length (sockets (run [Disconnect ''a'', WsClose 0 1000] connected_a)) = 1
   \<and> map_of (reconnectAttempts (run [Disconnect ''a'', WsClose 0 1000] connected_a)) ''a'' = None"
proof -
  have h: "map_of (connections connected_a) ''a'' = Some 0 \<and> 0 < length (sockets connected_a)
   \<and> readyState (sockets connected_a ! 0) = OPEN \<and> ws_task (sockets connected_a ! 0) = ''a''"
    by (simp add: connected_a_eq init_def)
  have t: "timeouts connected_a = [] \<and> length (sockets connected_a) = 1"
    by (simp add: connected_a_eq init_def)
  from intentional_close_never_reconnects [of "''a''" connected_a 0] h t
  show ?thesis by simp
qed

text \<open>
  Claim C9, at the input where the code departs from it. Three connection attempts for task
  \<open>a\<close> fail (error and close with code 1006 each); the task is then polling
  and has no entry in \<^verbatim>\<open>connections\<close>. \<^verbatim>\<open>disconnectAll\<close> iterates over \<^verbatim>\<open>connections\<close> only:
  the polling timer and the reconnect counter of the task remain, whereas
  \<^verbatim>\<open>disconnect("a")\<close> releases both.
\<close>

theorem disconnectAll_leaves_polling:
  "pollingIntervals (run (failing_a @ [DisconnectAll]) init) = [(''a'', 1)]
   \<and> intervals (run (failing_a @ [DisconnectAll]) init) = [(1, ''a'')]
   \<and> reconnectAttempts (run (failing_a @ [DisconnectAll]) init) = [(''a'', 5)]
   \<and> connections (run failing_a init) = []
   \<and> pollingIntervals (run (failing_a @ [Disconnect ''a'']) init) = []
   \<and> intervals (run (failing_a @ [Disconnect ''a'']) init) = []
   \<and> reconnectAttempts (run (failing_a @ [Disconnect ''a'']) init) = []"
  by (simp add: failing_a_def svc_defs)

section \<open>Dispatch of inbound events\<close>

lemma callTaskUpdate_fields:
  "taskUpdatesSeen (callTaskUpdate t u cb s) = taskUpdatesSeen s @ [(cb, t, u)]
   \<and> connections (callTaskUpdate t u cb s) = connections s
   \<and> reconnectAttempts (callTaskUpdate t u cb s) = reconnectAttempts s
   \<and> pollingIntervals (callTaskUpdate t u cb s) = pollingIntervals s
   \<and> taskUpdateCallbacks (callTaskUpdate t u cb s) = taskUpdateCallbacks s
   \<and> logCallbacks (callTaskUpdate t u cb s) = logCallbacks s
   \<and> sockets (callTaskUpdate t u cb s) = sockets s
   \<and> timeouts (callTaskUpdate t u cb s) = timeouts s
   \<and> intervals (callTaskUpdate t u cb s) = intervals s
   \<and> nextTimer (callTaskUpdate t u cb s) = nextTimer s
   \<and> localStorage (callTaskUpdate t u cb s) = localStorage s
   \<and> fetches (callTaskUpdate t u cb s) = fetches s
   \<and> toasts (callTaskUpdate t u cb s) = toasts s
   \<and> logsSeen (callTaskUpdate t u cb s) = logsSeen s
   \<and> persistCalls (callTaskUpdate t u cb s) = persistCalls s"
  by (cases cb) (simp_all add: callTaskUpdate_def)

lemma callLog_fields:
  "logsSeen (callLog t e cb s) = logsSeen s @ [(cb, t, e)]
   \<and> connections (callLog t e cb s) = connections s
   \<and> reconnectAttempts (callLog t e cb s) = reconnectAttempts s
   \<and> pollingIntervals (callLog t e cb s) = pollingIntervals s
   \<and> taskUpdateCallbacks (callLog t e cb s) = taskUpdateCallbacks s
   \<and> logCallbacks (callLog t e cb s) = logCallbacks s
   \<and> sockets (callLog t e cb s) = sockets s
   \<and> timeouts (callLog t e cb s) = timeouts s
   \<and> intervals (callLog t e cb s) = intervals s
   \<and> nextTimer (callLog t e cb s) = nextTimer s
   \<and> localStorage (callLog t e cb s) = localStorage s
   \<and> fetches (callLog t e cb s) = fetches s
   \<and> toasts (callLog t e cb s) = toasts s
   \<and> taskUpdatesSeen (callLog t e cb s) = taskUpdatesSeen s
   \<and> persistCalls (callLog t e cb s) = persistCalls s"
  by (cases cb) (simp_all add: callLog_def)

lemma fold_callTaskUpdate:
  "taskUpdatesSeen (fold (callTaskUpdate t u) cbs s) = taskUpdatesSeen s @ map (\<lambda>cb. (cb, t, u)) cbs
   \<and> connections (fold (callTaskUpdate t u) cbs s) = connections s
   \<and> reconnectAttempts (fold (callTaskUpdate t u) cbs s) = reconnectAttempts s
   \<and> pollingIntervals (fold (callTaskUpdate t u) cbs s) = pollingIntervals s
   \<and> taskUpdateCallbacks (fold (callTaskUpdate t u) cbs s) = taskUpdateCallbacks s
   \<and> logCallbacks (fold (callTaskUpdate t u) cbs s) = logCallbacks s
   \<and> sockets (fold (callTaskUpdate t u) cbs s) = sockets s
   \<and> timeouts (fold (callTaskUpdate t u) cbs s) = timeouts s
   \<and> intervals (fold (callTaskUpdate t u) cbs s) = intervals s
   \<and> nextTimer (fold (callTaskUpdate t u) cbs s) = nextTimer s
   \<and> localStorage (fold (callTaskUpdate t u) cbs s) = localStorage s
   \<and> fetches (fold (callTaskUpdate t u) cbs s) = fetches s
   \<and> toasts (fold (callTaskUpdate t u) cbs s) = toasts s
   \<and> logsSeen (fold (callTaskUpdate t u) cbs s) = logsSeen s
   \<and> persistCalls (fold (callTaskUpdate t u) cbs s) = persistCalls s"
proof (induction cbs arbitrary: s)
  case Nil
  show ?case by simp
next
  case (Cons cb cbs)
  show ?case
    by (simp add: Cons.IH callTaskUpdate_fields)
qed

lemma fold_callLog:
  "logsSeen (fold (callLog t e) cbs s) = logsSeen s @ map (\<lambda>cb. (cb, t, e)) cbs
   \<and> connections (fold (callLog t e) cbs s) = connections s
   \<and> reconnectAttempts (fold (callLog t e) cbs s) = reconnectAttempts s
   \<and> pollingIntervals (fold (callLog t e) cbs s) = pollingIntervals s
   \<and> taskUpdateCallbacks (fold (callLog t e) cbs s) = taskUpdateCallbacks s
   \<and> logCallbacks (fold (callLog t e) cbs s) = logCallbacks s
   \<and> sockets (fold (callLog t e) cbs s) = sockets s
   \<and> timeouts (fold (callLog t e) cbs s) = timeouts s
   \<and> intervals (fold (callLog t e) cbs s) = intervals s
   \<and> nextTimer (fold (callLog t e) cbs s) = nextTimer s
   \<and> localStorage (fold (callLog t e) cbs s) = localStorage s
   \<and> fetches (fold (callLog t e) cbs s) = fetches s
   \<and> toasts (fold (callLog t e) cbs s) = toasts s
   \<and> taskUpdatesSeen (fold (callLog t e) cbs s) = taskUpdatesSeen s
   \<and> persistCalls (fold (callLog t e) cbs s) = persistCalls s"
proof (induction cbs arbitrary: s)
  case Nil
  show ?case by simp
next
  case (Cons cb cbs)
  show ?case
    by (simp add: Cons.IH callLog_fields)
qed

lemma updateTaskInHistory_fields:
  "persistCalls (updateTaskInHistory t u s) = persistCalls s @ [(t, u)]
   \<and> taskUpdatesSeen (updateTaskInHistory t u s) = taskUpdatesSeen s
   \<and> connections (updateTaskInHistory t u s) = connections s
   \<and> reconnectAttempts (updateTaskInHistory t u s) = reconnectAttempts s
   \<and> pollingIntervals (updateTaskInHistory t u s) = pollingIntervals s
   \<and> taskUpdateCallbacks (updateTaskInHistory t u s) = taskUpdateCallbacks s
   \<and> logCallbacks (updateTaskInHistory t u s) = logCallbacks s
   \<and> sockets (updateTaskInHistory t u s) = sockets s
   \<and> timeouts (updateTaskInHistory t u s) = timeouts s
   \<and> intervals (updateTaskInHistory t u s) = intervals s
   \<and> nextTimer (updateTaskInHistory t u s) = nextTimer s
   \<and> fetches (updateTaskInHistory t u s) = fetches s
   \<and> toasts (updateTaskInHistory t u s) = toasts s
   \<and> logsSeen (updateTaskInHistory t u s) = logsSeen s"
  by (simp add: updateTaskInHistory_def getLocalTaskHistory_def
        split: storage_item.splits option.splits)

lemma fst_getLocalTaskHistory_cong:
  "localStorage s = localStorage s' \<Longrightarrow> fst (getLocalTaskHistory s) = fst (getLocalTaskHistory s')"
  by (simp add: getLocalTaskHistory_def split: storage_item.splits)

lemma notifyTaskUpdate_fields:
  "taskUpdatesSeen (notifyTaskUpdate t u s)
      = taskUpdatesSeen s @ map (\<lambda>cb. (cb, t, u)) (taskUpdateCallbacks s)
   \<and> persistCalls (notifyTaskUpdate t u s) = persistCalls s @ [(t, u)]
   \<and> connections (notifyTaskUpdate t u s) = connections s
   \<and> reconnectAttempts (notifyTaskUpdate t u s) = reconnectAttempts s
   \<and> pollingIntervals (notifyTaskUpdate t u s) = pollingIntervals s
   \<and> taskUpdateCallbacks (notifyTaskUpdate t u s) = taskUpdateCallbacks s
   \<and> logCallbacks (notifyTaskUpdate t u s) = logCallbacks s
   \<and> sockets (notifyTaskUpdate t u s) = sockets s
   \<and> timeouts (notifyTaskUpdate t u s) = timeouts s
   \<and> intervals (notifyTaskUpdate t u s) = intervals s
   \<and> nextTimer (notifyTaskUpdate t u s) = nextTimer s
   \<and> fetches (notifyTaskUpdate t u s) = fetches s
   \<and> toasts (notifyTaskUpdate t u s) = toasts s
   \<and> logsSeen (notifyTaskUpdate t u s) = logsSeen s"
  by (simp add: notifyTaskUpdate_def updateTaskInHistory_fields fold_callTaskUpdate)

lemma localStorage_notifyTaskUpdate:
  "localStorage (notifyTaskUpdate t u s) =
     (case findIndex (has_id t) (fst (getLocalTaskHistory s)) of
        None \<Rightarrow> localStorage s
      | Some i \<Rightarrow> Stored ((fst (getLocalTaskHistory s))
                   [i := stringify_obj (spread (fst (getLocalTaskHistory s) ! i) u)]))"
proof -
  let ?s1 = "fold (callTaskUpdate t u) (taskUpdateCallbacks s) s"
  have ls: "localStorage ?s1 = localStorage s" by (simp add: fold_callTaskUpdate)
  have h: "fst (getLocalTaskHistory ?s1) = fst (getLocalTaskHistory s)"
    by (rule fst_getLocalTaskHistory_cong [OF ls])
  show ?thesis
    unfolding notifyTaskUpdate_def localStorage_updateTaskInHistory h ls ..
qed

lemma notifyLog_fields:
  "logsSeen (notifyLog t e s) = logsSeen s @ map (\<lambda>cb. (cb, t, e)) (logCallbacks s)
   \<and> persistCalls (notifyLog t e s) = persistCalls s
   \<and> localStorage (notifyLog t e s) = localStorage s
   \<and> taskUpdatesSeen (notifyLog t e s) = taskUpdatesSeen s
   \<and> connections (notifyLog t e s) = connections s
   \<and> reconnectAttempts (notifyLog t e s) = reconnectAttempts s
   \<and> pollingIntervals (notifyLog t e s) = pollingIntervals s
   \<and> taskUpdateCallbacks (notifyLog t e s) = taskUpdateCallbacks s
   \<and> logCallbacks (notifyLog t e s) = logCallbacks s
   \<and> sockets (notifyLog t e s) = sockets s
   \<and> timeouts (notifyLog t e s) = timeouts s
   \<and> intervals (notifyLog t e s) = intervals s
   \<and> nextTimer (notifyLog t e s) = nextTimer s
   \<and> fetches (notifyLog t e s) = fetches s
   \<and> toasts (notifyLog t e s) = toasts s"
  by (simp add: notifyLog_def fold_callLog)

lemma disconnect_fields:
  "taskUpdatesSeen (disconnect t s) = taskUpdatesSeen s
   \<and> persistCalls (disconnect t s) = persistCalls s
   \<and> localStorage (disconnect t s) = localStorage s
   \<and> logsSeen (disconnect t s) = logsSeen s
   \<and> taskUpdateCallbacks (disconnect t s) = taskUpdateCallbacks s
   \<and> logCallbacks (disconnect t s) = logCallbacks s
   \<and> fetches (disconnect t s) = fetches s
   \<and> toasts (disconnect t s) = toasts s
   \<and> timeouts (disconnect t s) = timeouts s
   \<and> length (sockets (disconnect t s)) = length (sockets s)"
  by (simp add: disconnect_def stopPolling_def ws_close_def Let_def split: option.splits)


lemma get_prop_Inr: "d \<noteq> JUndefined \<Longrightarrow> d \<noteq> JNull \<Longrightarrow> \<exists>v. get_prop d p = Inr v"
  by (cases d) simp_all

lemma get_prop_Inr_any: "get_prop d p = Inr v \<Longrightarrow> \<exists>w. get_prop d q = Inr w"
  by (cases d) simp_all

lemma map_of_spread_other: "k \<notin> fst ` set b \<Longrightarrow> map_of (spread a b) k = map_of a k"
proof (induction b arbitrary: a)
  case Nil
  show ?case by (simp add: spread_def)
next
  case (Cons x b)
  from Cons.prems have "k \<noteq> fst x" and "k \<notin> fst ` set b" by auto
  with Cons.IH [of "AList.update (fst x) (snd x) a"] show ?case
    by (simp add: spread_def AList.update_conv')
qed

lemma map_of_stringify_Some:
  "map_of kvs k = Some v \<Longrightarrow> v \<noteq> JUndefined \<Longrightarrow> map_of (stringify_obj kvs) k = Some v"
  by (induction kvs) (auto simp: stringify_obj_def)

lemma map_of_stringify_None:
  "map_of kvs k = None \<Longrightarrow> map_of (stringify_obj kvs) k = None"
  by (induction kvs) (auto simp: stringify_obj_def split: if_splits)

lemma has_id_merge:
  "has_id t r \<Longrightarrow> ''id'' \<notin> fst ` set u \<Longrightarrow> has_id t (stringify_obj (spread r u))"
  by (simp add: has_id_def map_of_spread_other map_of_stringify_Some)

lemma stored_record_step:
  assumes "localStorage s = Stored h" and "i < length h" and "has_id t (h ! i)"
    and "\<forall>j<i. \<not> has_id t (h ! j)"
  shows "localStorage (notifyTaskUpdate t u s) = Stored (h[i := stringify_obj (spread (h ! i) u)])"
proof -
  have h: "fst (getLocalTaskHistory s) = h"
    using assms(1) by (simp add: getLocalTaskHistory_def)
  have "findIndex (has_id t) h = Some i"
    using assms(2-4) by (rule findIndex_first)
  then show ?thesis
    by (simp add: localStorage_notifyTaskUpdate h)
qed

lemma watching_a_eq:
  "watching_a = init\<lparr>connections := [(''a'', 0)],
      taskUpdateCallbacks := [Listener 1], logCallbacks := [Listener 2],
      sockets := [\<lparr>ws_task = ''a'', readyState = OPEN, closeCode = None\<rparr>],
      localStorage := Stored [[(''id'', JStr ''a''), (''status'', JStr ''running'')]],
      console := [LogConnected ''a'']\<rparr>"
  by (simp add: watching_a_def svc_defs onTaskUpdate_def onLog_def)

lemma step_message_open:
  "ws < length (sockets s) \<Longrightarrow> readyState (sockets s ! ws) = OPEN \<Longrightarrow>
   handleWebSocketMessage now m s = Inr s' \<Longrightarrow> step (WsMessage ws now (Json m)) s = s'"
  by (simp add: ws_onmessage_def)

lemma handle_progress:
  "get_prop d ''progress'' = Inr p \<Longrightarrow>
   handleWebSocketMessage now \<lparr>msg_type = ''progress'', msg_task_id = t, msg_data = d, msg_timestamp = ts\<rparr> s
     = Inr (notifyTaskUpdate t [(''progress'', p)] s)"
  by (simp add: handleWebSocketMessage_def Let_def)

lemma handle_completed:
  "get_prop d ''result'' = Inr r \<Longrightarrow> get_prop d ''message'' = Inr m \<Longrightarrow>
   handleWebSocketMessage now \<lparr>msg_type = ''completed'', msg_task_id = t, msg_data = d, msg_timestamp = ts\<rparr> s
     = Inr (disconnect t
         ((notifyTaskUpdate t [(''status'', JStr ''completed''), (''completed_at'', JStr now),
                               (''result'', r), (''progress'', JNum 100)] s)
          \<lparr>toasts := toasts (notifyTaskUpdate t [(''status'', JStr ''completed''), (''completed_at'', JStr now),
                               (''result'', r), (''progress'', JNum 100)] s)
                      @ [ToastSuccess (or_else m (JStr ''Success''))]\<rparr>))"
  by (simp add: handleWebSocketMessage_def Let_def)

lemma handle_failed:
  "get_prop d ''error'' = Inr er \<Longrightarrow>
   handleWebSocketMessage now \<lparr>msg_type = ''failed'', msg_task_id = t, msg_data = d, msg_timestamp = ts\<rparr> s
     = Inr (disconnect t
         ((notifyTaskUpdate t [(''status'', JStr ''failed''), (''completed_at'', JStr now),
                               (''error'', er)] s)
          \<lparr>toasts := toasts (notifyTaskUpdate t [(''status'', JStr ''failed''), (''completed_at'', JStr now),
                               (''error'', er)] s)
                      @ [ToastError (or_else er (JStr ''Unknown error''))]\<rparr>))"
  by (simp add: handleWebSocketMessage_def Let_def)

lemma disconnect_toasts_fields:
  "taskUpdatesSeen (disconnect t (s\<lparr>toasts := x\<rparr>)) = taskUpdatesSeen s
   \<and> localStorage (disconnect t (s\<lparr>toasts := x\<rparr>)) = localStorage s
   \<and> persistCalls (disconnect t (s\<lparr>toasts := x\<rparr>)) = persistCalls s"
  by (simp add: disconnect_fields)

lemma stored_record_kept:
  assumes "localStorage s = Stored h" and "i < length h" and "has_id t (h ! i)"
    and "\<forall>j<i. \<not> has_id t (h ! j)" and "''id'' \<notin> fst ` set u"
  shows "localStorage (notifyTaskUpdate t u s) = Stored (h[i := stringify_obj (spread (h ! i) u)])"
    and "has_id t (h[i := stringify_obj (spread (h ! i) u)] ! i)"
    and "\<forall>j<i. \<not> has_id t (h[i := stringify_obj (spread (h ! i) u)] ! j)"
proof -
  show "localStorage (notifyTaskUpdate t u s) = Stored (h[i := stringify_obj (spread (h ! i) u)])"
    using assms(1-4) by (rule stored_record_step)
  show "has_id t (h[i := stringify_obj (spread (h ! i) u)] ! i)"
    using assms(2,3,5) by (simp add: has_id_merge)
  show "\<forall>j<i. \<not> has_id t (h[i := stringify_obj (spread (h ! i) u)] ! j)"
    using assms(4) by simp
qed

lemma progress_kept_by_merge:
  assumes "JUndefined \<notin> snd ` set r" and "''progress'' \<notin> fst ` set u"
  shows "get_prop (JObj (stringify_obj (spread r u))) ''progress'' = get_prop (JObj r) ''progress''"
proof (cases "map_of r ''progress''")
  case None
  then have "map_of (spread r u) ''progress'' = None"
    using assms(2) by (simp add: map_of_spread_other)
  then have "map_of (stringify_obj (spread r u)) ''progress'' = None"
    by (rule map_of_stringify_None)
  with None show ?thesis by simp
next
  case (Some v)
  then have "(''progress'', v) \<in> set r" by (rule map_of_SomeD)
  then have "v \<in> snd ` set r" by force
  with assms(1) have v: "v \<noteq> JUndefined" by blast
  from Some have "map_of (spread r u) ''progress'' = Some v"
    using assms(2) by (simp add: map_of_spread_other)
  then have "map_of (stringify_obj (spread r u)) ''progress'' = Some v"
    using v by (rule map_of_stringify_Some)
  with Some show ?thesis by simp
qed

text \<open>
  Claim C8 as stated fails for log events: a log message for a task that has a record in
  local storage is delivered to the log observer, and \<^verbatim>\<open>updateTaskInHistory\<close> is not called
  and local storage is not written.
\<close>

theorem log_dispatch_is_not_persisted:
  "logsSeen (step (WsMessage 0 ''t1''
       (Json \<lparr>msg_type = ''log'', msg_task_id = ''a'',
              msg_data = JObj [(''message'', JStr ''step 1 done'')], msg_timestamp = ''t0''\<rparr>))
       watching_a) = [(Listener 2, ''a'', JStr ''step 1 done'')]
   \<and> persistCalls (step (WsMessage 0 ''t1''
       (Json \<lparr>msg_type = ''log'', msg_task_id = ''a'',
              msg_data = JObj [(''message'', JStr ''step 1 done'')], msg_timestamp = ''t0''\<rparr>))
       watching_a) = []
   \<and> localStorage (step (WsMessage 0 ''t1''
       (Json \<lparr>msg_type = ''log'', msg_task_id = ''a'',
              msg_data = JObj [(''message'', JStr ''step 1 done'')], msg_timestamp = ''t0''\<rparr>))
       watching_a) = localStorage watching_a"
  by (simp add: watching_a_eq init_def ws_onmessage_def handleWebSocketMessage_def
        notifyLog_def callLog_def Let_def)

text \<open>
  Claim C8, amended. Every dispatch of a status, progress, completed or failed message whose
  payload is neither \<^verbatim>\<open>null\<close> nor \<^verbatim>\<open>undefined\<close>, and every dispatch of a polled status, calls
  \<^verbatim>\<open>updateTaskInHistory\<close> once, with the task identifier and the very update that each
  task-update observer receives. A log message is delivered to the log observers only: it
  calls no persistence update and leaves local storage as it was.
\<close>

theorem task_update_dispatch_is_persisted:
  "(msg_type m \<in> {''status'', ''progress'', ''completed'', ''failed''}
      \<and> msg_data m \<noteq> JUndefined \<and> msg_data m \<noteq> JNull \<longrightarrow>
     (\<exists>s' u. handleWebSocketMessage now m s = Inr s'
        \<and> taskUpdatesSeen s' = taskUpdatesSeen s @ map (\<lambda>cb. (cb, msg_task_id m, u)) (taskUpdateCallbacks s)
        \<and> persistCalls s' = persistCalls s @ [(msg_task_id m, u)]
        \<and> localStorage s' = localStorage (updateTaskInHistory (msg_task_id m) u s)))
   \<and> (msg_type m = ''log'' \<and> msg_data m \<noteq> JUndefined \<and> msg_data m \<noteq> JNull \<longrightarrow>
     (\<exists>s' e. handleWebSocketMessage now m s = Inr s'
        \<and> logsSeen s' = logsSeen s @ map (\<lambda>cb. (cb, msg_task_id m, e)) (logCallbacks s)
        \<and> persistCalls s' = persistCalls s
        \<and> localStorage s' = localStorage s))
   \<and> taskUpdatesSeen (pollTick taskId (Some status) s)
        = taskUpdatesSeen s @ map (\<lambda>cb. (cb, taskId, status)) (taskUpdateCallbacks s)
   \<and> persistCalls (pollTick taskId (Some status) s) = persistCalls s @ [(taskId, status)]"
proof -
  have nl: "localStorage (notifyTaskUpdate t u s) = localStorage (updateTaskInHistory t u s)" for t u
    by (simp add: localStorage_notifyTaskUpdate localStorage_updateTaskInHistory)
  have upd: "\<exists>s' u. handleWebSocketMessage now m s = Inr s'
        \<and> taskUpdatesSeen s' = taskUpdatesSeen s @ map (\<lambda>cb. (cb, msg_task_id m, u)) (taskUpdateCallbacks s)
        \<and> persistCalls s' = persistCalls s @ [(msg_task_id m, u)]
        \<and> localStorage s' = localStorage (updateTaskInHistory (msg_task_id m) u s)"
    if ty: "msg_type m \<in> {''status'', ''progress'', ''completed'', ''failed''}"
      and d: "msg_data m \<noteq> JUndefined" "msg_data m \<noteq> JNull"
  proof -
    from get_prop_Inr [OF d] obtain st pr re me er where g:
      "get_prop (msg_data m) ''status'' = Inr st" "get_prop (msg_data m) ''progress'' = Inr pr"
      "get_prop (msg_data m) ''result'' = Inr re" "get_prop (msg_data m) ''message'' = Inr me"
      "get_prop (msg_data m) ''error'' = Inr er"
      by metis
    from ty consider "msg_type m = ''status''" | "msg_type m = ''progress''"
      | "msg_type m = ''completed''" | "msg_type m = ''failed''" by auto
    then show ?thesis
    proof cases
      case 1
      then show ?thesis
        by (simp add: handleWebSocketMessage_def g Let_def notifyTaskUpdate_fields nl)
    next
      case 2
      then show ?thesis
        by (simp add: handleWebSocketMessage_def g Let_def notifyTaskUpdate_fields nl)
    next
      case 3
      then show ?thesis
        by (simp add: handleWebSocketMessage_def g Let_def notifyTaskUpdate_fields disconnect_fields nl)
    next
      case 4
      then show ?thesis
        by (simp add: handleWebSocketMessage_def g Let_def notifyTaskUpdate_fields disconnect_fields nl)
    qed
  qed
  have lg: "\<exists>s' e. handleWebSocketMessage now m s = Inr s'
        \<and> logsSeen s' = logsSeen s @ map (\<lambda>cb. (cb, msg_task_id m, e)) (logCallbacks s)
        \<and> persistCalls s' = persistCalls s
        \<and> localStorage s' = localStorage s"
    if ty: "msg_type m = ''log''" and d: "msg_data m \<noteq> JUndefined" "msg_data m \<noteq> JNull"
  proof -
    from get_prop_Inr [OF d] obtain me where "get_prop (msg_data m) ''message'' = Inr me" by metis
    with ty show ?thesis
      by (simp add: handleWebSocketMessage_def Let_def notifyLog_fields)
  qed
  have stop: "taskUpdatesSeen (stopPolling t x) = taskUpdatesSeen x
      \<and> persistCalls (stopPolling t x) = persistCalls x" for t x
    by (simp add: stopPolling_def split: option.splits)
  have poll: "taskUpdatesSeen (pollTick taskId (Some status) s)
        = taskUpdatesSeen s @ map (\<lambda>cb. (cb, taskId, status)) (taskUpdateCallbacks s)
     \<and> persistCalls (pollTick taskId (Some status) s) = persistCalls s @ [(taskId, status)]"
    by (simp add: pollTick_def Let_def stop notifyTaskUpdate_fields)
  from upd lg poll show ?thesis by blast
qed


theorem task_update_dispatch_is_persisted_witness:
  "msg_type \<lparr>msg_type = ''progress'', msg_task_id = ''a'',
        msg_data = JObj [(''progress'', JNum 10)], msg_timestamp = ''t0''\<rparr>
      \<in> {''status'', ''progress'', ''completed'', ''failed''}
   \<and> (\<exists>s' u. handleWebSocketMessage ''t1'' \<lparr>msg_type = ''progress'', msg_task_id = ''a'',
          msg_data = JObj [(''progress'', JNum 10)], msg_timestamp = ''t0''\<rparr> watching_a = Inr s'
        \<and> taskUpdatesSeen s' = [(Listener 1, ''a'', u)]
        \<and> persistCalls s' = [(''a'', u)])
   \<and> msg_type \<lparr>msg_type = ''log'', msg_task_id = ''a'',
        msg_data = JObj [(''message'', JStr ''step 1 done'')], msg_timestamp = ''t0''\<rparr> = ''log''
   \<and> (\<exists>s' e. handleWebSocketMessage ''t1'' \<lparr>msg_type = ''log'', msg_task_id = ''a'',
          msg_data = JObj [(''message'', JStr ''step 1 done'')], msg_timestamp = ''t0''\<rparr> watching_a = Inr s'
        \<and> logsSeen s' = [(Listener 2, ''a'', e)]
        \<and> persistCalls s' = [])"
proof -
  have w: "taskUpdateCallbacks watching_a = [Listener 1] \<and> logCallbacks watching_a = [Listener 2]
      \<and> taskUpdatesSeen watching_a = [] \<and> logsSeen watching_a = [] \<and> persistCalls watching_a = []"
    by (simp add: watching_a_eq init_def)
  from task_update_dispatch_is_persisted
         [of "\<lparr>msg_type = ''progress'', msg_task_id = ''a'',
               msg_data = JObj [(''progress'', JNum 10)], msg_timestamp = ''t0''\<rparr>"
             "''t1''" watching_a "''a''" "[]"]
  have a: "\<exists>s' u. handleWebSocketMessage ''t1'' \<lparr>msg_type = ''progress'', msg_task_id = ''a'',
          msg_data = JObj [(''progress'', JNum 10)], msg_timestamp = ''t0''\<rparr> watching_a = Inr s'
        \<and> taskUpdatesSeen s' = [(Listener 1, ''a'', u)]
        \<and> persistCalls s' = [(''a'', u)]"
    by (auto simp: w)
  from task_update_dispatch_is_persisted
         [of "\<lparr>msg_type = ''log'', msg_task_id = ''a'',
               msg_data = JObj [(''message'', JStr ''step 1 done'')], msg_timestamp = ''t0''\<rparr>"
             "''t1''" watching_a "''a''" "[]"]
  have b: "\<exists>s' e. handleWebSocketMessage ''t1'' \<lparr>msg_type = ''log'', msg_task_id = ''a'',
          msg_data = JObj [(''message'', JStr ''step 1 done'')], msg_timestamp = ''t0''\<rparr> watching_a = Inr s'
        \<and> logsSeen s' = [(Listener 2, ''a'', e)]
        \<and> persistCalls s' = []"
    by (auto simp: w)
  from a b show ?thesis by simp
qed

text \<open>
  Claim C6. On an open socket, for a task whose record is in the stored history, the frames
  progress 10, progress 50 and completed (with a payload) make every registered task-update
  observer receive exactly these three updates in this order, and leave the record of the
  task with progress 100, status completed and the completion time stamp; the other records
  are untouched. The update dispatched for a failed message carries no progress: the stored
  progress of the task stays what it was.
\<close>

theorem progress_then_completed_in_order:
  assumes sock: "ws < length (sockets s)" "readyState (sockets s ! ws) = OPEN"
    and stored: "localStorage s = Stored h" "i < length h" "has_id t (h ! i)"
                "\<forall>j<i. \<not> has_id t (h ! j)"
    and d1: "get_prop d1 ''progress'' = Inr (JNum 10)"
    and d2: "get_prop d2 ''progress'' = Inr (JNum 50)"
    and d3: "get_prop d3 ''result'' = Inr r"
  shows "taskUpdatesSeen (run [WsMessage ws n1 (Json (progress_msg t d1 ts1)),
                               WsMessage ws n2 (Json (progress_msg t d2 ts2)),
                               WsMessage ws n3 (Json (completed_msg t d3 ts3))] s)
           = taskUpdatesSeen s
             @ map (\<lambda>cb. (cb, t, [(''progress'', JNum 10)])) (taskUpdateCallbacks s)
             @ map (\<lambda>cb. (cb, t, [(''progress'', JNum 50)])) (taskUpdateCallbacks s)
             @ map (\<lambda>cb. (cb, t, [(''status'', JStr ''completed''), (''completed_at'', JStr n3),
                                   (''result'', r), (''progress'', JNum 100)])) (taskUpdateCallbacks s)
       \<and> (\<exists>h'. localStorage (run [WsMessage ws n1 (Json (progress_msg t d1 ts1)),
                                   WsMessage ws n2 (Json (progress_msg t d2 ts2)),
                                   WsMessage ws n3 (Json (completed_msg t d3 ts3))] s) = Stored h'
             \<and> length h' = length h \<and> has_id t (h' ! i) \<and> (\<forall>j<i. \<not> has_id t (h' ! j))
             \<and> get_prop (JObj (h' ! i)) ''progress'' = Inr (JNum 100)
             \<and> get_prop (JObj (h' ! i)) ''completed_at'' = Inr (JStr n3)
             \<and> get_prop (JObj (h' ! i)) ''status'' = Inr (JStr ''completed'')
             \<and> (\<forall>j<length h. j \<noteq> i \<longrightarrow> h' ! j = h ! j))
       \<and> (get_prop df ''error'' = Inr er \<longrightarrow>
             taskUpdatesSeen (step (WsMessage ws nf (Json (failed_msg t df tsf))) s)
               = taskUpdatesSeen s
                 @ map (\<lambda>cb. (cb, t, [(''status'', JStr ''failed''), (''completed_at'', JStr nf),
                                       (''error'', er)])) (taskUpdateCallbacks s)
           \<and> (\<exists>hf. localStorage (step (WsMessage ws nf (Json (failed_msg t df tsf))) s) = Stored hf
                 \<and> get_prop (JObj (hf ! i)) ''status'' = Inr (JStr ''failed'')
                 \<and> (JUndefined \<notin> snd ` set (h ! i) \<longrightarrow>
                      get_prop (JObj (hf ! i)) ''progress'' = get_prop (JObj (h ! i)) ''progress'')))"
proof -
  let ?u1 = "[(''progress'', JNum 10)]"
  let ?u2 = "[(''progress'', JNum 50)]"
  let ?u3 = "[(''status'', JStr ''completed''), (''completed_at'', JStr n3),
              (''result'', r), (''progress'', JNum 100)]"
  let ?uf = "[(''status'', JStr ''failed''), (''completed_at'', JStr nf), (''error'', er)]"
  let ?s1 = "notifyTaskUpdate t ?u1 s"
  let ?s2 = "notifyTaskUpdate t ?u2 ?s1"
  let ?s3 = "notifyTaskUpdate t ?u3 ?s2"
  let ?h1 = "h[i := stringify_obj (spread (h ! i) ?u1)]"
  let ?h2 = "?h1[i := stringify_obj (spread (?h1 ! i) ?u2)]"
  let ?h3 = "?h2[i := stringify_obj (spread (?h2 ! i) ?u3)]"
  from get_prop_Inr_any [OF d3] obtain m where m: "get_prop d3 ''message'' = Inr m" by blast
  have e1: "step (WsMessage ws n1 (Json (progress_msg t d1 ts1))) s = ?s1"
    unfolding progress_msg_def by (rule step_message_open [OF sock handle_progress [OF d1]])
  have sock1: "ws < length (sockets ?s1)" "readyState (sockets ?s1 ! ws) = OPEN"
    using sock by (simp_all add: notifyTaskUpdate_fields)
  have e2: "step (WsMessage ws n2 (Json (progress_msg t d2 ts2))) ?s1 = ?s2"
    unfolding progress_msg_def by (rule step_message_open [OF sock1 handle_progress [OF d2]])
  have sock2: "ws < length (sockets ?s2)" "readyState (sockets ?s2 ! ws) = OPEN"
    using sock1 by (simp_all add: notifyTaskUpdate_fields)
  have e3: "step (WsMessage ws n3 (Json (completed_msg t d3 ts3))) ?s2
              = disconnect t (?s3\<lparr>toasts := toasts ?s3 @ [ToastSuccess (or_else m (JStr ''Success''))]\<rparr>)"
    unfolding completed_msg_def by (rule step_message_open [OF sock2 handle_completed [OF d3 m]])
  have r: "run [WsMessage ws n1 (Json (progress_msg t d1 ts1)),
                WsMessage ws n2 (Json (progress_msg t d2 ts2)),
                WsMessage ws n3 (Json (completed_msg t d3 ts3))] s
             = disconnect t (?s3\<lparr>toasts := toasts ?s3 @ [ToastSuccess (or_else m (JStr ''Success''))]\<rparr>)"
    unfolding run_def fold_simps o_apply e1 e2 e3 ..
  have seen: "taskUpdatesSeen ?s3 = taskUpdatesSeen s
             @ map (\<lambda>cb. (cb, t, ?u1)) (taskUpdateCallbacks s)
             @ map (\<lambda>cb. (cb, t, ?u2)) (taskUpdateCallbacks s)
             @ map (\<lambda>cb. (cb, t, ?u3)) (taskUpdateCallbacks s)"
    by (simp add: notifyTaskUpdate_fields)
  have k1: "localStorage ?s1 = Stored ?h1" "has_id t (?h1 ! i)" "\<forall>j<i. \<not> has_id t (?h1 ! j)"
    using stored_record_kept [OF stored, of ?u1] by simp_all
  have len1: "i < length ?h1" using stored(2) by simp
  have k2: "localStorage ?s2 = Stored ?h2" "has_id t (?h2 ! i)" "\<forall>j<i. \<not> has_id t (?h2 ! j)"
    using stored_record_kept [OF k1(1) len1 k1(2,3), of ?u2] by simp_all
  have len2: "i < length ?h2" using stored(2) by simp
  have k3: "localStorage ?s3 = Stored ?h3" "has_id t (?h3 ! i)" "\<forall>j<i. \<not> has_id t (?h3 ! j)"
    using stored_record_kept [OF k2(1) len2 k2(2,3), of ?u3] by simp_all
  have rec: "?h3 ! i = stringify_obj (spread (?h2 ! i) ?u3)"
    using stored(2) by simp
  have p: "map_of (spread (?h2 ! i) ?u3) ''progress'' = Some (JNum 100)"
          "map_of (spread (?h2 ! i) ?u3) ''completed_at'' = Some (JStr n3)"
          "map_of (spread (?h2 ! i) ?u3) ''status'' = Some (JStr ''completed'')"
    by (simp_all add: spread_def AList.update_conv')
  have final: "get_prop (JObj (?h3 ! i)) ''progress'' = Inr (JNum 100)"
              "get_prop (JObj (?h3 ! i)) ''completed_at'' = Inr (JStr n3)"
              "get_prop (JObj (?h3 ! i)) ''status'' = Inr (JStr ''completed'')"
    unfolding rec using p by (simp_all add: map_of_stringify_Some)
  have others: "\<forall>j<length h. j \<noteq> i \<longrightarrow> ?h3 ! j = h ! j" by simp
  have part1: "taskUpdatesSeen (run [WsMessage ws n1 (Json (progress_msg t d1 ts1)),
                               WsMessage ws n2 (Json (progress_msg t d2 ts2)),
                               WsMessage ws n3 (Json (completed_msg t d3 ts3))] s)
           = taskUpdatesSeen s
             @ map (\<lambda>cb. (cb, t, ?u1)) (taskUpdateCallbacks s)
             @ map (\<lambda>cb. (cb, t, ?u2)) (taskUpdateCallbacks s)
             @ map (\<lambda>cb. (cb, t, ?u3)) (taskUpdateCallbacks s)"
    unfolding r using seen by (simp add: disconnect_toasts_fields)
  have st3: "localStorage (run [WsMessage ws n1 (Json (progress_msg t d1 ts1)),
                               WsMessage ws n2 (Json (progress_msg t d2 ts2)),
                               WsMessage ws n3 (Json (completed_msg t d3 ts3))] s) = Stored ?h3"
    unfolding r using k3(1) by (simp add: disconnect_toasts_fields)
  have part2: "\<exists>h'. localStorage (run [WsMessage ws n1 (Json (progress_msg t d1 ts1)),
                                   WsMessage ws n2 (Json (progress_msg t d2 ts2)),
                                   WsMessage ws n3 (Json (completed_msg t d3 ts3))] s) = Stored h'
             \<and> length h' = length h \<and> has_id t (h' ! i) \<and> (\<forall>j<i. \<not> has_id t (h' ! j))
             \<and> get_prop (JObj (h' ! i)) ''progress'' = Inr (JNum 100)
             \<and> get_prop (JObj (h' ! i)) ''completed_at'' = Inr (JStr n3)
             \<and> get_prop (JObj (h' ! i)) ''status'' = Inr (JStr ''completed'')
             \<and> (\<forall>j<length h. j \<noteq> i \<longrightarrow> h' ! j = h ! j)"
    using st3 k3(2,3) final others by (intro exI [of _ ?h3]) simp
  have part3: "taskUpdatesSeen (step (WsMessage ws nf (Json (failed_msg t df tsf))) s)
               = taskUpdatesSeen s @ map (\<lambda>cb. (cb, t, ?uf)) (taskUpdateCallbacks s)
           \<and> (\<exists>hf. localStorage (step (WsMessage ws nf (Json (failed_msg t df tsf))) s) = Stored hf
                 \<and> get_prop (JObj (hf ! i)) ''status'' = Inr (JStr ''failed'')
                 \<and> (JUndefined \<notin> snd ` set (h ! i) \<longrightarrow>
                      get_prop (JObj (hf ! i)) ''progress'' = get_prop (JObj (h ! i)) ''progress''))"
    if df: "get_prop df ''error'' = Inr er"
  proof -
    let ?sf = "notifyTaskUpdate t ?uf s"
    let ?hf = "h[i := stringify_obj (spread (h ! i) ?uf)]"
    have ef: "step (WsMessage ws nf (Json (failed_msg t df tsf))) s
              = disconnect t (?sf\<lparr>toasts := toasts ?sf @ [ToastError (or_else er (JStr ''Unknown error''))]\<rparr>)"
      unfolding failed_msg_def by (rule step_message_open [OF sock handle_failed [OF df]])
    have kf: "localStorage ?sf = Stored ?hf"
      using stored_record_kept(1) [OF stored, of ?uf] by simp
    have recf: "?hf ! i = stringify_obj (spread (h ! i) ?uf)" using stored(2) by simp
    have "map_of (spread (h ! i) ?uf) ''status'' = Some (JStr ''failed'')"
      by (simp add: spread_def AList.update_conv')
    then have stf: "get_prop (JObj (?hf ! i)) ''status'' = Inr (JStr ''failed'')"
      unfolding recf by (simp add: map_of_stringify_Some)
    have keep: "JUndefined \<notin> snd ` set (h ! i) \<longrightarrow>
                get_prop (JObj (?hf ! i)) ''progress'' = get_prop (JObj (h ! i)) ''progress''"
      unfolding recf by (intro impI progress_kept_by_merge) simp_all
    show ?thesis
      unfolding ef using kf stf keep
      by (simp add: disconnect_toasts_fields notifyTaskUpdate_fields)
  qed
  from part1 part2 part3 show ?thesis by blast
qed


theorem progress_then_completed_in_order_witness:
  "0 < length (sockets watching_a) \<and> readyState (sockets watching_a ! 0) = OPEN
   \<and> localStorage watching_a = Stored [[(''id'', JStr ''a''), (''status'', JStr ''running'')]]
   \<and> has_id ''a'' ([[(''id'', JStr ''a''), (''status'', JStr ''running'')]] ! 0)
   \<and> get_prop (JObj [(''progress'', JNum 10)]) ''progress'' = Inr (JNum 10)
   \<and> get_prop (JObj [(''progress'', JNum 50)]) ''progress'' = Inr (JNum 50)
   \<and> get_prop (JObj [(''result'', JStr ''ok'')]) ''result'' = Inr (JStr ''ok'')
   \<and> get_prop (JObj [(''error'', JStr ''boom'')]) ''error'' = Inr (JStr ''boom'')
   \<and> taskUpdatesSeen (run [WsMessage 0 ''n1'' (Json (progress_msg ''a'' (JObj [(''progress'', JNum 10)]) ''t1'')),
                            WsMessage 0 ''n2'' (Json (progress_msg ''a'' (JObj [(''progress'', JNum 50)]) ''t2'')),
                            WsMessage 0 ''n3'' (Json (completed_msg ''a'' (JObj [(''result'', JStr ''ok'')]) ''t3''))]
                         watching_a)
       = [(Listener 1, ''a'', [(''progress'', JNum 10)]),
          (Listener 1, ''a'', [(''progress'', JNum 50)]),
          (Listener 1, ''a'', [(''status'', JStr ''completed''), (''completed_at'', JStr ''n3''),
                               (''result'', JStr ''ok''), (''progress'', JNum 100)])]
   \<and> (\<exists>h'. localStorage (run [WsMessage 0 ''n1'' (Json (progress_msg ''a'' (JObj [(''progress'', JNum 10)]) ''t1'')),
                            WsMessage 0 ''n2'' (Json (progress_msg ''a'' (JObj [(''progress'', JNum 50)]) ''t2'')),
                            WsMessage 0 ''n3'' (Json (completed_msg ''a'' (JObj [(''result'', JStr ''ok'')]) ''t3''))]
                         watching_a) = Stored h'
         \<and> get_prop (JObj (h' ! 0)) ''progress'' = Inr (JNum 100)
         \<and> get_prop (JObj (h' ! 0)) ''completed_at'' = Inr (JStr ''n3''))
   \<and> taskUpdatesSeen (step (WsMessage 0 ''n4'' (Json (failed_msg ''a'' (JObj [(''error'', JStr ''boom'')]) ''t4''))) watching_a)
       = [(Listener 1, ''a'', [(''status'', JStr ''failed''), (''completed_at'', JStr ''n4''),
                               (''error'', JStr ''boom'')])]
   \<and> (\<exists>hf. localStorage (step (WsMessage 0 ''n4'' (Json (failed_msg ''a'' (JObj [(''error'', JStr ''boom'')]) ''t4''))) watching_a) = Stored hf
         \<and> get_prop (JObj (hf ! 0)) ''progress'' = Inr JUndefined)"
proof -
  have sock: "0 < length (sockets watching_a)" "readyState (sockets watching_a ! 0) = OPEN"
    by (simp_all add: watching_a_eq init_def)
  have stored: "localStorage watching_a = Stored [[(''id'', JStr ''a''), (''status'', JStr ''running'')]]"
      "0 < length [[(''id'', JStr ''a''), (''status'', JStr ''running'')]]"
      "has_id ''a'' ([[(''id'', JStr ''a''), (''status'', JStr ''running'')]] ! 0)"
      "\<forall>j<0. \<not> has_id ''a'' ([[(''id'', JStr ''a''), (''status'', JStr ''running'')]] ! j)"
    by (simp_all add: watching_a_eq init_def has_id_def)
  have d: "get_prop (JObj [(''progress'', JNum 10)]) ''progress'' = Inr (JNum 10)"
      "get_prop (JObj [(''progress'', JNum 50)]) ''progress'' = Inr (JNum 50)"
      "get_prop (JObj [(''result'', JStr ''ok'')]) ''result'' = Inr (JStr ''ok'')"
    by simp_all
  have df: "get_prop (JObj [(''error'', JStr ''boom'')]) ''error'' = Inr (JStr ''boom'')"
    by simp
  have w: "taskUpdateCallbacks watching_a = [Listener 1] \<and> taskUpdatesSeen watching_a = []"
    by (simp add: watching_a_eq init_def)
  have nu: "JUndefined \<notin> snd ` set ([[(''id'', JStr ''a''), (''status'', JStr ''running'')]] ! 0)"
    by simp
  note t = progress_then_completed_in_order [OF sock stored d,
      where df = "JObj [(''error'', JStr ''boom'')]" and er = "JStr ''boom''"
        and ?n1.0 = "''n1''" and ?n2.0 = "''n2''" and ?n3.0 = "''n3''" and nf = "''n4''"
        and ?ts1.0 = "''t1''" and ?ts2.0 = "''t2''" and ?ts3.0 = "''t3''" and tsf = "''t4''"]
  from t df nu w have concl:
   "taskUpdatesSeen (run [WsMessage 0 ''n1'' (Json (progress_msg ''a'' (JObj [(''progress'', JNum 10)]) ''t1'')),
                            WsMessage 0 ''n2'' (Json (progress_msg ''a'' (JObj [(''progress'', JNum 50)]) ''t2'')),
                            WsMessage 0 ''n3'' (Json (completed_msg ''a'' (JObj [(''result'', JStr ''ok'')]) ''t3''))]
                         watching_a)
       = [(Listener 1, ''a'', [(''progress'', JNum 10)]),
          (Listener 1, ''a'', [(''progress'', JNum 50)]),
          (Listener 1, ''a'', [(''status'', JStr ''completed''), (''completed_at'', JStr ''n3''),
                               (''result'', JStr ''ok''), (''progress'', JNum 100)])]
   \<and> (\<exists>h'. localStorage (run [WsMessage 0 ''n1'' (Json (progress_msg ''a'' (JObj [(''progress'', JNum 10)]) ''t1'')),
                            WsMessage 0 ''n2'' (Json (progress_msg ''a'' (JObj [(''progress'', JNum 50)]) ''t2'')),
                            WsMessage 0 ''n3'' (Json (completed_msg ''a'' (JObj [(''result'', JStr ''ok'')]) ''t3''))]
                         watching_a) = Stored h'
         \<and> get_prop (JObj (h' ! 0)) ''progress'' = Inr (JNum 100)
         \<and> get_prop (JObj (h' ! 0)) ''completed_at'' = Inr (JStr ''n3''))
   \<and> taskUpdatesSeen (step (WsMessage 0 ''n4'' (Json (failed_msg ''a'' (JObj [(''error'', JStr ''boom'')]) ''t4''))) watching_a)
       = [(Listener 1, ''a'', [(''status'', JStr ''failed''), (''completed_at'', JStr ''n4''),
                               (''error'', JStr ''boom'')])]
   \<and> (\<exists>hf. localStorage (step (WsMessage 0 ''n4'' (Json (failed_msg ''a'' (JObj [(''error'', JStr ''boom'')]) ''t4''))) watching_a) = Stored hf
         \<and> get_prop (JObj (hf ! 0)) ''progress'' = Inr JUndefined)"
    by auto
  from sock stored d df concl show ?thesis by blast
qed

section \<open>Malformed frames\<close>

lemma agree_refl [simp]: "agree x x"
  by (simp add: agree_def)

lemma agree_console [simp]: "agree (x\<lparr>console := c\<rparr>) y = agree x y"
  by (simp add: agree_def)

lemma agree_console_right [simp]: "agree x (y\<lparr>console := c\<rparr>) = agree x y"
  by (simp add: agree_def)
























section \<open>Polling beside a live connection\<close>

lemmas dispatch_defs = ws_onmessage_def handleWebSocketMessage_def notifyTaskUpdate_def
  callTaskUpdate_def updateTaskInHistory_def getLocalTaskHistory_def pollTick_def onTaskUpdate_def
  progress_msg_def Let_def

text \<open>
  What the \<^verbatim>\<open>onopen\<close> handler does: the task is registered with the socket, its counter is
  cleared and its polling timer, if it has one, is cleared in the browser. A status request
  that is already awaited stays awaited.
\<close>

lemma open_clears_counter_and_timer:
  assumes "ws < length (sockets s)" and "readyState (sockets s ! ws) = CONNECTING"
    and "ws_task (sockets s ! ws) = taskId"
  shows "attemptsOf (step (WsOpen ws) s) taskId = 0
       \<and> map_of (reconnectAttempts (step (WsOpen ws) s)) taskId = None
       \<and> map_of (pollingIntervals (step (WsOpen ws) s)) taskId = None
       \<and> map_of (connections (step (WsOpen ws) s)) taskId = Some ws
       \<and> isConnected taskId (step (WsOpen ws) s)
       \<and> (\<forall>interval. map_of (pollingIntervals s) taskId = Some interval \<longrightarrow>
            map_of (intervals (step (WsOpen ws) s)) interval = None)
       \<and> fetches (step (WsOpen ws) s) = fetches s"
proof -
  have op: "step (WsOpen ws) s = ws_onopen taskId ws (set_readyState ws OPEN s)"
    using assms by simp
  show ?thesis
    unfolding op using assms(1)
    by (auto simp: ws_onopen_def stopPolling_def set_readyState_def attemptsOf_def isConnected_def
          AList.update_conv' AList.delete_conv' split: option.splits)
qed

text \<open>
  Claim C5, at two inputs where the code departs from it. First: task \<open>a\<close> is subscribed
  twice, both sockets open, and socket 0 fails. Its \<^verbatim>\<open>onclose\<close> deletes the entry of the task
  from \<^verbatim>\<open>connections\<close>, although the entry is socket 1, which stays open. Two retries fail;
  the task is then polling while socket 1 is still open: a progress frame on socket 1 and the
  next poll dispatch the same update twice. Second: the task is polling and a status
  request is awaited when a retry opens a socket. The open clears the counter and the timer,
  and the awaited request, when it settles, still dispatches its update after the handover.
\<close>

theorem polling_beside_open_socket:
  "map (\<lambda>w. (ws_task w, readyState w)) (sockets (run unregistered_open_a init))
     = [(''a'', CLOSED), (''a'', OPEN), (''a'', CLOSED), (''a'', CLOSED)]
   \<and> connections (run unregistered_open_a init) = []
   \<and> pollingIntervals (run unregistered_open_a init) = [(''a'', 1)]
   \<and> intervals (run unregistered_open_a init) = [(1, ''a'')]
   \<and> taskUpdatesSeen (run (unregistered_open_a @
         [WsMessage 1 ''n1'' (Json (progress_msg ''a'' (JObj [(''progress'', JNum 50)]) ''t1'')),
          IntervalFires 1, FetchReturns 0 (Some [(''progress'', JNum 50)])]) init)
     = [(Listener 1, ''a'', [(''progress'', JNum 50)]), (Listener 1, ''a'', [(''progress'', JNum 50)])]
   \<and> connections (run handover_a init) = [(''a'', 3)]
   \<and> reconnectAttempts (run handover_a init) = []
   \<and> pollingIntervals (run handover_a init) = []
   \<and> intervals (run handover_a init) = []
   \<and> taskUpdatesSeen (run handover_a init) = []
   \<and> taskUpdatesSeen (run (handover_a @ [FetchReturns 0 (Some [(''status'', JStr ''running'')])]) init)
     = [(Listener 1, ''a'', [(''status'', JStr ''running'')])]"
  by (simp add: unregistered_open_a_def handover_a_def failing_a_def svc_defs dispatch_defs has_id_def)

end
